theory Spec2Isabelle
  imports Main "HOL-Library.Multiset"
begin

section \<open>Rules and the library rule evaluator (handler.js, parseRule)\<close>

text \<open>
  A rule of a version descriptor is a JSON object with an \<open>action\<close> string and an optional
  \<open>os\<close> object, whose \<open>name\<close> may itself be absent (descriptors also constrain by
  \<open>arch\<close> or \<open>version\<close> only). The target OS is the string \<open>getOS()\<close> returns.
\<close>

record os_constraint =
  os_name :: "string option"

record rule =
  action :: string
  os :: "os_constraint option"

text \<open>\<open>rule.os.name === this.getOS()\<close>, for a rule whose \<open>os\<close> object is present.\<close>

definition os_is :: "string \<Rightarrow> os_constraint \<Rightarrow> bool" where
  "os_is target c = (os_name c = Some target)"

text \<open>
  One iteration of the loop of \<open>parseRule\<close> on the local \<open>action\<close>:
  \<^verbatim>\<open>
    if (rule.action === 'allow') {
      action = true
      if (rule.os) { action = rule.os.name === this.getOS() }
    } else if (rule.action === 'disallow') {
      if (rule.os && rule.os.name === this.getOS()) { action = false }
    }
  \<close>
\<close>

definition parseRule_step :: "string \<Rightarrow> bool \<Rightarrow> rule \<Rightarrow> bool" where
  "parseRule_step target act r =
     (if action r = ''allow'' then
        (case os r of None \<Rightarrow> True | Some c \<Rightarrow> os_is target c)
      else if action r = ''disallow'' then
        (case os r of None \<Rightarrow> act | Some c \<Rightarrow> if os_is target c then False else act)
      else act)"

text \<open>
  \<open>parseRule(lib)\<close> answers whether the library is to be EXCLUDED. The argument is the
  library's \<open>rules\<close> field: \<open>None\<close> when the field is absent (\<open>!lib.rules\<close>), a list
  otherwise (an empty array is truthy in JavaScript, so it runs the loop zero times).
\<close>

definition parseRule :: "string \<Rightarrow> rule list option \<Rightarrow> bool" where
  "parseRule target rules =
     (case rules of
        None \<Rightarrow> False
      | Some rs \<Rightarrow> \<not> foldl (parseRule_step target) False rs)"

definition lib_included :: "string \<Rightarrow> rule list option \<Rightarrow> bool" where
  "lib_included target rules = (\<not> parseRule target rules)"

text \<open>The rules that the claims name.\<close>

definition allow_any :: rule where
  "allow_any = \<lparr>action = ''allow'', os = None\<rparr>"

definition allow_os :: "string \<Rightarrow> rule" where
  "allow_os a = \<lparr>action = ''allow'', os = Some \<lparr>os_name = Some a\<rparr>\<rparr>"

definition disallow_any :: rule where
  "disallow_any = \<lparr>action = ''disallow'', os = None\<rparr>"

definition disallow_os :: "string \<Rightarrow> rule" where
  "disallow_os a = \<lparr>action = ''disallow'', os = Some \<lparr>os_name = Some a\<rparr>\<rparr>"

subsection \<open>The rule semantics in the specification's words\<close>

text \<open>
  The specification: a rule with no OS constraint matches every platform, a constrained rule
  matches the platform it names; the rules are read left to right and the last matching rule
  wins. \<open>spec_last_match\<close> is that reading, following the specification and not the code:
  the verdict of the last matching rule, \<open>None\<close> when no rule matches (the specification
  gives the default for a library with no rules only).
\<close>

definition rule_matches :: "string \<Rightarrow> rule \<Rightarrow> bool" where
  "rule_matches target r = (case os r of None \<Rightarrow> True | Some c \<Rightarrow> os_is target c)"

definition spec_last_match :: "string \<Rightarrow> rule list \<Rightarrow> bool option" where
  "spec_last_match target rs =
     (let ms = filter (rule_matches target) rs
      in if ms = [] then None else Some (action (last ms) = ''allow''))"

text \<open>
  What the code does instead is decided by the last rule that WRITES the local flag: every
  allow rule writes (its own match), a disallow rule writes only when it names the target.
\<close>

definition rule_writes :: "string \<Rightarrow> rule \<Rightarrow> bool" where
  "rule_writes target r =
     (action r = ''allow'' \<or>
      (action r = ''disallow'' \<and> (case os r of None \<Rightarrow> False | Some c \<Rightarrow> os_is target c)))"

definition last_write_verdict :: "string \<Rightarrow> rule list \<Rightarrow> bool" where
  "last_write_verdict target rs =
     (let ws = filter (rule_writes target) rs
      in ws \<noteq> [] \<and> action (last ws) = ''allow'' \<and> rule_matches target (last ws))"


section \<open>JavaScript values, events\<close>

text \<open>
  A value that the typings give as \<open>string | number\<close> (memory sizes, window sizes).
  Numbers are whole numbers here: fractional sizes, \<open>NaN\<close> and the infinities are
  floating point and stay outside the model.
\<close>

datatype jsval = JNum int | JStr string

definition digit_char :: "nat \<Rightarrow> char" where
  "digit_char d = ''0123456789'' ! d"

fun show_nat :: "nat \<Rightarrow> string" where
  "show_nat n = (if n < 10 then [digit_char n] else show_nat (n div 10) @ [digit_char (n mod 10)])"

declare show_nat.simps [simp del]

definition show_int :: "int \<Rightarrow> string" where
  "show_int i = (if i < 0 then CHR ''-'' # show_nat (nat (- i)) else show_nat (nat i))"

text \<open>The template literal \<open>`${v}`\<close>.\<close>

definition template :: "jsval \<Rightarrow> string" where
  "template v = (case v of JNum n \<Rightarrow> show_int n | JStr s \<Rightarrow> s)"

text \<open>
  \<open>Number(s)\<close> of a string is a parameter \<open>num\<close> of the functions below (\<open>None\<close> is
  \<open>NaN\<close>), so that what is proved holds for whatever the conversion does.
  \<open>decimal\<close> is the conversion on the strings the examples use: a run of decimal digits
  is its value, the empty string is 0, any other string is \<open>NaN\<close>.
\<close>

definition digit_val :: "char \<Rightarrow> nat" where
  "digit_val c = of_char c - 48"

definition is_digit :: "char \<Rightarrow> bool" where
  "is_digit c = (48 \<le> (of_char c :: nat) \<and> (of_char c :: nat) \<le> 57)"

definition decimal :: "string \<Rightarrow> int option" where
  "decimal s = (if list_all is_digit s
                then Some (int (foldl (\<lambda>acc c. 10 * acc + digit_val c) 0 s)) else None)"

definition toNumber :: "(string \<Rightarrow> int option) \<Rightarrow> jsval \<Rightarrow> int option" where
  "toNumber num v = (case v of JNum n \<Rightarrow> Some n | JStr s \<Rightarrow> num s)"

definition js_isNaN :: "(string \<Rightarrow> int option) \<Rightarrow> jsval \<Rightarrow> bool" where
  "js_isNaN num v = (toNumber num v = None)"

text \<open>Two strings compare by code units, left to right (\<open>"900" < "1000"\<close> is false).\<close>

fun str_lt :: "string \<Rightarrow> string \<Rightarrow> bool" where
  "str_lt [] [] = False"
| "str_lt [] (y # ys) = True"
| "str_lt (x # xs) [] = False"
| "str_lt (x # xs) (y # ys) =
     ((of_char x :: nat) < of_char y \<or> (x = y \<and> str_lt xs ys))"

text \<open>
  The operator \<open>a < b\<close>: two strings compare as strings, any other pair is converted
  to numbers and compares false when either is \<open>NaN\<close>.
\<close>

definition js_lt :: "(string \<Rightarrow> int option) \<Rightarrow> jsval \<Rightarrow> jsval \<Rightarrow> bool" where
  "js_lt num a b =
     (case (a, b) of
        (JStr s, JStr t) \<Rightarrow> str_lt s t
      | _ \<Rightarrow> (case (toNumber num a, toNumber num b) of
                 (Some x, Some y) \<Rightarrow> x < y
               | _ \<Rightarrow> False))"

text \<open>Truthiness of such a value: \<open>0\<close> and \<open>""\<close> are falsy.\<close>

definition truthy :: "jsval \<Rightarrow> bool" where
  "truthy v = (case v of JNum n \<Rightarrow> n \<noteq> 0 | JStr s \<Rightarrow> s \<noteq> [])"

text \<open>
  An element of the game argument array: a string, a number, \<open>undefined\<close> (a placeholder
  replaced by a missing option), or an object with optional \<open>rules\<close> and \<open>value\<close>; the
  value of a conditional argument is a string or an array of strings.
\<close>

datatype argval = VStr string | VArr "string list"

datatype arg = AStr string | ANum int | AUndef | AObj "rule list option" "argval option"

definition arg_of :: "jsval \<Rightarrow> arg" where
  "arg_of v = (case v of JNum n \<Rightarrow> ANum n | JStr s \<Rightarrow> AStr s)"

text \<open>The events the client emits. A debug message is its text without the timing.\<close>

datatype event =
    Debug string
  | Progress string nat nat
  | Arguments "arg list"
  | Data string
  | Close_ev int


section \<open>Memory settings (handler.js, getMemory)\<close>

record memory =
  mem_min :: jsval
  mem_max :: jsval

definition default_memory :: memory where
  "default_memory = \<lparr>mem_min = JNum 512, mem_max = JNum 1023\<rparr>"

text \<open>
  \<open>getMemory()\<close> reads and may overwrite \<open>options.memory\<close>: the result is the returned
  pair \<open>[max, min]\<close>, the memory option afterwards, and the debug events.
\<close>

definition getMemory ::
  "(string \<Rightarrow> int option) \<Rightarrow> memory option \<Rightarrow> (string \<times> string) \<times> memory \<times> event list" where
  "getMemory num mo =
     (let (m, ev1) =
        (case mo of
           None \<Rightarrow> (default_memory, [Debug ''[VoidBeam]: Memory not set! Setting 1GB as MAX!''])
         | Some m0 \<Rightarrow> (m0, []))
      in if \<not> js_isNaN num (mem_max m) \<and> \<not> js_isNaN num (mem_min m) then
           (let (m', ev2) =
              (if js_lt num (mem_max m) (mem_min m)
               then (default_memory, [Debug ''[VoidBeam]: MIN memory is higher than MAX! Resetting!''])
               else (m, []))
            in ((template (mem_max m') @ ''M'', template (mem_min m') @ ''M''), m', ev1 @ ev2))
         else ((template (mem_max m), template (mem_min m)), m, ev1))"

text \<open>
  The two heap flags of \<open>launch\<close>: \<open>`-Xmx${getMemory()[0]}`\<close> and
  \<open>`-Xms${getMemory()[1]}`\<close>, the second call on the option the first one left.
\<close>

definition memory_flags ::
  "(string \<Rightarrow> int option) \<Rightarrow> memory option \<Rightarrow> string list \<times> memory \<times> event list" where
  "memory_flags num mo =
     (let (p1, m1, ev1) = getMemory num mo;
          (p2, m2, ev2) = getMemory num (Some m1)
      in ([''-Xmx'' @ fst p1, ''-Xms'' @ snd p2], m2, ev1 @ ev2))"


definition is_str :: "jsval \<Rightarrow> bool" where
  "is_str v = (case v of JStr s \<Rightarrow> True | JNum n \<Rightarrow> False)"


section \<open>Conditional game arguments (handler.js, getLaunchOptions)\<close>

text \<open>
  The rule loop of a conditional argument, on the local \<open>shouldInclude\<close>, which starts
  at \<open>true\<close>:
  \<^verbatim>\<open>
    if (rule.action === 'allow') {
      shouldInclude = false
      if (rule.os && rule.os.name === this.getOS()) { shouldInclude = true }
    }
  \<close>
\<close>

definition shouldInclude_step :: "string \<Rightarrow> bool \<Rightarrow> rule \<Rightarrow> bool" where
  "shouldInclude_step target inc r =
     (if action r = ''allow'' then
        (case os r of None \<Rightarrow> False | Some c \<Rightarrow> os_is target c)
      else inc)"

definition shouldInclude :: "string \<Rightarrow> rule list \<Rightarrow> bool" where
  "shouldInclude target rs = foldl (shouldInclude_step target) True rs"

text \<open>\<open>args[index].value\<close> as a condition: absent and \<open>""\<close> are falsy, an array is truthy.\<close>

definition value_truthy :: "argval option \<Rightarrow> bool" where
  "value_truthy v = (case v of None \<Rightarrow> False | Some (VStr s) \<Rightarrow> s \<noteq> [] | Some (VArr vs) \<Rightarrow> True)"

definition arg_included :: "string \<Rightarrow> rule list \<Rightarrow> argval option \<Rightarrow> bool" where
  "arg_included target rs v = (shouldInclude target rs \<and> value_truthy v)"

text \<open>
  The substitution loop, \<open>for (let index = 0; index < args.length; index++)\<close>, as a
  function of the part of the array from \<open>index\<close> on; the result is that part when the
  loop ends.
  \<^item> A string that is a key of \<open>fields\<close> is replaced by its entry.
  \<^item> An object without \<open>rules\<close> is left as it is.
  \<^item> An object with \<open>rules\<close> that is included and has an array value is replaced by the
    array's elements (\<open>args.splice(index, 1, ...value)\<close>); the loop then goes on at
    \<open>index + 1\<close>, so the element now at \<open>index\<close> is not visited.
  \<^item> One that has a string value is replaced by the string, which is not visited either.
  \<^item> Otherwise the object is removed and \<open>index\<close> is decremented.
\<close>

definition subst :: "(string \<Rightarrow> arg option) \<Rightarrow> string \<Rightarrow> arg" where
  "subst tbl s = (case tbl s of Some v \<Rightarrow> v | None \<Rightarrow> AStr s)"

fun arg_weight :: "arg \<Rightarrow> nat" where
  "arg_weight (AObj rs (Some (VArr vs))) = Suc (length vs)"
| "arg_weight a = 1"

lemma arg_weight_strings: "sum_list (map arg_weight (map AStr vs)) = length vs"
  by (induction vs) simp_all

lemma arg_weight_pos: "0 < arg_weight a"
  by (induction a rule: arg_weight.induct) simp_all

function expand_args :: "(string \<Rightarrow> arg option) \<Rightarrow> string \<Rightarrow> arg list \<Rightarrow> arg list" where
  "expand_args tbl target [] = []"
| "expand_args tbl target (AStr s # rest) =
     subst tbl s # expand_args tbl target rest"
| "expand_args tbl target (ANum n # rest) = ANum n # expand_args tbl target rest"
| "expand_args tbl target (AUndef # rest) = AUndef # expand_args tbl target rest"
| "expand_args tbl target (AObj None v # rest) = AObj None v # expand_args tbl target rest"
| "expand_args tbl target (AObj (Some rs) v # rest) =
     (if arg_included target rs v then
        (case v of
           Some (VArr vs) \<Rightarrow>
             (case map AStr vs @ rest of
                [] \<Rightarrow> []
              | x # ys \<Rightarrow> x # expand_args tbl target ys)
         | Some (VStr s) \<Rightarrow> AStr s # expand_args tbl target rest
         | None \<Rightarrow> expand_args tbl target rest)
      else expand_args tbl target rest)"
  by pat_completeness auto
termination
proof (relation "measure (\<lambda>(tbl, target, xs). sum_list (map arg_weight xs))")
  show "wf (measure (\<lambda>(tbl, target, xs). sum_list (map arg_weight xs)))"
    by simp
next
  fix tbl :: "string \<Rightarrow> arg option" and target :: string and rs v rest x2 vs x ys
  assume v: "v = Some x2" "x2 = VArr vs" and eq: "map AStr vs @ rest = x # ys"
  have "sum_list (map arg_weight (x # ys)) = sum_list (map arg_weight (map AStr vs @ rest))"
    using eq by simp
  also have "\<dots> = length vs + sum_list (map arg_weight rest)"
    by (simp only: map_append sum_list.append arg_weight_strings)
  finally have "arg_weight x + sum_list (map arg_weight ys)
      = length vs + sum_list (map arg_weight rest)"
    by simp
  moreover have "0 < arg_weight x"
    by (rule arg_weight_pos)
  ultimately have "sum_list (map arg_weight ys) < Suc (length vs) + sum_list (map arg_weight rest)"
    by linarith
  then show "((tbl, target, ys), tbl, target, AObj (Some rs) v # rest)
      \<in> measure (\<lambda>(tbl, target, xs). sum_list (map arg_weight xs))"
    using v by simp
qed (simp_all add: arg_weight_pos)



section \<open>Paths\<close>

text \<open>
  Paths are strings with \<open>/\<close> as the separator; they are taken to be absolute and
  normalised already, so \<open>path.resolve\<close> leaves them as they are and \<open>path.join\<close> only
  concatenates.
\<close>

definition path_join :: "string \<Rightarrow> string \<Rightarrow> string" where
  "path_join d n = d @ ''/'' @ n"

definition path_resolve :: "string \<Rightarrow> string" where
  "path_resolve p = p"

definition basename :: "string \<Rightarrow> string" where
  "basename p = rev (takeWhile (\<lambda>c. c \<noteq> CHR ''/'') (rev p))"

definition dirname :: "string \<Rightarrow> string" where
  "dirname p =
     (if CHR ''/'' \<in> set p then rev (tl (dropWhile (\<lambda>c. c \<noteq> CHR ''/'') (rev p))) else ''.'')"

text \<open>\<open>a || b\<close> on an optional string: absent and \<open>""\<close> are falsy.\<close>

definition or_else :: "string option \<Rightarrow> string \<Rightarrow> string" where
  "or_else a b = (case a of None \<Rightarrow> b | Some s \<Rightarrow> if s = [] then b else s)"


section \<open>The world: files, events, requests, promises\<close>

text \<open>
  The identity record the authenticator returns (\<open>IUser\<close> of the typings). The launcher
  holds a reference to the caller's object, so identities live in a store.
\<close>

record meta =
  meta_type :: string
  meta_demo :: "bool option"
  meta_xuid :: "string option"
  meta_legacy :: "bool option"

record identity =
  access_token :: string
  client_token :: string
  uuid :: string
  id_name :: string
  user_properties :: string
  id_meta :: "meta option"

text \<open>
  \<^item> \<open>fs\<close>: the files, path to content;
  \<^item> \<open>events\<close>: what the client has emitted, oldest first;
  \<^item> \<open>requests\<close>: the URLs requested from the network, oldest first;
  \<^item> \<open>counter\<close>: the module-level \<open>let counter = 0\<close> of handler.js;
  \<^item> \<open>unhandled\<close>: the errors of rejected promises that nothing awaits;
  \<^item> \<open>store\<close>: the identity objects, by reference.
\<close>

record world =
  fs :: "string \<Rightarrow> string option"
  events :: "event list"
  requests :: "string list"
  counter :: nat
  unhandled :: "string list"
  store :: "nat \<Rightarrow> identity option"

definition emit :: "event \<Rightarrow> world \<Rightarrow> world" where
  "emit e w = w\<lparr>events := events w @ [e]\<rparr>"

text \<open>A promise: resolved with a value, rejected with an error, or never settled.\<close>

datatype 'a outcome = Resolved 'a | Rejected string | Pending

text \<open>\<open>resolve\<close> and \<open>reject\<close> settle a promise once; later calls do nothing.\<close>

definition settle :: "unit outcome \<Rightarrow> unit outcome \<Rightarrow> unit outcome" where
  "settle p r = (if p = Pending then r else p)"

text \<open>
  What one request delivers to the handlers \<open>downloadAsync\<close> registers, in order:
  \<^item> \<open>Response c\<close>: the request stream's \<open>response\<close> event with status \<open>c\<close>;
  \<^item> \<open>StreamError e\<close>: the request stream's \<open>error\<close> event;
  \<^item> \<open>Finish b\<close>: the write stream's \<open>finish\<close> event, the body \<open>b\<close> of the response
    (of any status: the stream is piped before the status is known) now in the file;
  \<^item> \<open>WriteError e\<close>: the write stream's \<open>error\<close> event.
  The network is a parameter: the events of the \<open>k\<close>-th request of a URL.
\<close>

datatype stream_event = Response nat | StreamError string | Finish string | WriteError string

type_synonym network = "string \<Rightarrow> nat \<Rightarrow> stream_event list"

definition http :: "nat \<Rightarrow> string \<Rightarrow> stream_event list" where
  "http c body = [Response c, Finish body]"

definition transport_error :: "string \<Rightarrow> stream_event list" where
  "transport_error e = [StreamError e]"

definition attempt_no :: "string \<Rightarrow> world \<Rightarrow> nat" where
  "attempt_no url w = count_list (requests w) url"


section \<open>Downloading one file (handler.js, downloadAsync)\<close>

text \<open>
  The synchronous part of a call: the directory is made (directories are not modelled),
  the debug line is emitted and the request is issued; the events it will deliver are those
  of the network for this request.
\<close>

definition dl_start :: "network \<Rightarrow> string \<Rightarrow> string \<Rightarrow> world \<Rightarrow> stream_event list \<times> world" where
  "dl_start net url name w =
     (net url (attempt_no url w),
      (emit (Debug (''[VoidBeam]: Downloading '' @ name @ '' from '' @ url)) w)
        \<lparr>requests := requests w @ [url]\<rparr>)"

text \<open>
  One event at the handlers of a call, on the state of its promise. \<open>respawn\<close> is what
  \<open>return this.downloadAsync(url, directory, name, false, type)\<close> does to the world: the
  promise it returns goes to the event emitter, which drops it, so the promise of this call
  is not settled by it.
\<close>

definition on_event ::
  "(world \<Rightarrow> world) \<Rightarrow> bool \<Rightarrow> string \<Rightarrow> string \<Rightarrow> unit outcome \<times> world \<Rightarrow> stream_event
     \<Rightarrow> unit outcome \<times> world" where
  "on_event respawn retry name path pw ev =
     (let p = fst pw; w = snd pw in
      case ev of
        Response c \<Rightarrow>
          if c \<noteq> 200 then
            (let w1 = emit (Debug (''[VoidBeam]: Failed to download '' @ name @ '', status: ''
                                    @ show_nat c)) w
             in if retry then (p, respawn w1)
                else (settle p (Rejected (''Download failed: '' @ show_nat c)), w1))
          else (p, w)
      | StreamError e \<Rightarrow>
          (let w1 = emit (Debug (''[VoidBeam]: Failed to download '' @ name @ '': '' @ e)) w
           in if retry then (p, respawn w1) else (settle p (Rejected e), w1))
      | Finish body \<Rightarrow>
          (settle p (Resolved ()),
           emit (Debug (''[VoidBeam]: Downloaded '' @ name))
             (w\<lparr>fs := (fs w)(path \<mapsto> body)\<rparr>))
      | WriteError e \<Rightarrow> (settle p (Rejected e), w))"

text \<open>The asynchronous part of a call: its events, from a pending promise.\<close>

definition dl_finish ::
  "(world \<Rightarrow> world) \<Rightarrow> bool \<Rightarrow> string \<Rightarrow> string \<Rightarrow> stream_event list \<Rightarrow> world
     \<Rightarrow> unit outcome \<times> world" where
  "dl_finish respawn retry directory name evs w =
     foldl (on_event respawn retry name (path_join directory name)) (Pending, w) evs"

text \<open>The call with \<open>retry = false\<close>: no handler calls \<open>downloadAsync\<close> again.\<close>

definition downloadAsync_noretry ::
  "network \<Rightarrow> string \<Rightarrow> string \<Rightarrow> string \<Rightarrow> world \<Rightarrow> unit outcome \<times> world" where
  "downloadAsync_noretry net url directory name w =
     (let (evs, w1) = dl_start net url name w
      in dl_finish id False directory name evs w1)"

text \<open>
  The retry as the handlers of the first call start it: it runs, and its promise is
  dropped; a rejection of it is an unhandled rejection.
\<close>

definition respawn_retry :: "network \<Rightarrow> string \<Rightarrow> string \<Rightarrow> string \<Rightarrow> world \<Rightarrow> world" where
  "respawn_retry net url directory name w =
     (case downloadAsync_noretry net url directory name w of
        (Rejected e, w') \<Rightarrow> w'\<lparr>unhandled := unhandled w' @ [e]\<rparr>
      | (_, w') \<Rightarrow> w')"

text \<open>\<open>downloadAsync(url, directory, name, retry, type)\<close>: the promise returned, and the world.\<close>

definition downloadAsync ::
  "network \<Rightarrow> string \<Rightarrow> string \<Rightarrow> string \<Rightarrow> bool \<Rightarrow> world \<Rightarrow> unit outcome \<times> world" where
  "downloadAsync net url directory name retry w =
     (let (evs, w1) = dl_start net url name w
      in dl_finish (respawn_retry net url directory name) retry directory name evs w1)"

text \<open>How many requests a step made.\<close>

definition fetches :: "world \<Rightarrow> world \<Rightarrow> nat" where
  "fetches w w' = length (requests w') - length (requests w)"

definition world0 :: world where
  "world0 = \<lparr>fs = Map.empty, events = [], requests = [], counter = 0, unhandled = [],
             store = Map.empty\<rparr>"


text \<open>
  With \<open>retry = true\<close> the promise of the call is settled by the write stream alone.
\<close>

definition write_settles :: "unit outcome \<Rightarrow> stream_event \<Rightarrow> unit outcome" where
  "write_settles p ev =
     (case ev of
        Finish body \<Rightarrow> settle p (Resolved ())
      | WriteError e \<Rightarrow> settle p (Rejected e)
      | _ \<Rightarrow> p)"


section \<open>Download batches (handler.js, downloadToDirectory and getAssets)\<close>

text \<open>
  A download object has a \<open>url\<close> and a \<open>path\<close>; a library entry has an optional
  \<open>downloads\<close> object with an optional \<open>artifact\<close>, optional \<open>rules\<close>, and its own
  \<open>url\<close> and \<open>path\<close> fields, which \<open>downloadToDirectory\<close> reads when the entry has no
  \<open>downloads\<close> (\<open>lib.downloads ? lib.downloads.artifact : lib\<close>).
\<close>

record download_obj =
  d_path :: "string option"
  d_url :: string

record downloads =
  dl_artifact :: "download_obj option"

record library =
  lib_downloads :: "downloads option"
  lib_rules :: "rule list option"
  lib_self :: download_obj

text \<open>
  Both batches map an \<open>async\<close> function over their entries and await \<open>Promise.all\<close>. Each
  call of the function runs at once up to its first \<open>await\<close>: an entry whose file exists is
  counted there and then, an entry that needs its file starts the download and is counted when
  the download's promise resolves. What an entry does up to there:
  \<^item> \<open>Skip\<close>: it has no download object and returns (\<open>if (!downloadObj) return\<close>);
  \<^item> \<open>Throw e\<close>: it throws (\<open>path.join\<close> of an undefined path);
  \<^item> \<open>Have p\<close>: its file \<open>p\<close> exists;
  \<^item> \<open>Fetch url dir name p\<close>: it calls \<open>downloadAsync(url, dir, name, true, _)\<close> for \<open>p\<close>.
\<close>

datatype task = Skip | Throw string | Have string | Fetch string string string string

definition lib_download_obj :: "library \<Rightarrow> download_obj option" where
  "lib_download_obj lib =
     (case lib_downloads lib of Some d \<Rightarrow> dl_artifact d | None \<Rightarrow> Some (lib_self lib))"

definition lib_task :: "(string \<Rightarrow> string option) \<Rightarrow> string \<Rightarrow> library \<Rightarrow> task" where
  "lib_task files directory lib =
     (case lib_download_obj lib of
        None \<Rightarrow> Skip
      | Some obj \<Rightarrow>
          (case d_path obj of
             None \<Rightarrow> Throw ''TypeError''
           | Some p \<Rightarrow>
               (let libPath = path_join directory p in
                if files libPath \<noteq> None then Have libPath
                else Fetch (d_url obj) (dirname libPath) (basename libPath) libPath)))"

text \<open>
  The state of a batch: the world, the array \<open>libs\<close>, the first rejection, the number of
  promises that never settled, and the downloads started with the events each will deliver.
\<close>

record batch =
  bw :: world
  blibs :: "string list"
  bfail :: "string option"
  bpending :: nat
  bstarted :: "(string \<times> string \<times> string \<times> string \<times> stream_event list) list"

text \<open>\<open>libs.push(libPath); counter++; emit('progress', {type, task: counter, total})\<close>\<close>

definition complete :: "string \<Rightarrow> nat \<Rightarrow> string \<Rightarrow> batch \<Rightarrow> batch" where
  "complete ty tot p b =
     (let w = bw b; c = Suc (counter w)
      in b\<lparr>bw := emit (Progress ty c tot) (w\<lparr>counter := c\<rparr>), blibs := blibs b @ [p]\<rparr>)"

definition fail_with :: "string \<Rightarrow> batch \<Rightarrow> batch" where
  "fail_with e b = (case bfail b of None \<Rightarrow> b\<lparr>bfail := Some e\<rparr> | Some e0 \<Rightarrow> b)"

definition sync_step :: "network \<Rightarrow> string \<Rightarrow> nat \<Rightarrow> batch \<Rightarrow> task \<Rightarrow> batch" where
  "sync_step net ty tot b t =
     (case t of
        Skip \<Rightarrow> b
      | Throw e \<Rightarrow> fail_with e b
      | Have p \<Rightarrow> complete ty tot p b
      | Fetch url dir name p \<Rightarrow>
          (let (evs, w1) = dl_start net url name (bw b)
           in b\<lparr>bw := w1, bstarted := bstarted b @ [(url, dir, name, p, evs)]\<rparr>))"

definition async_step ::
  "network \<Rightarrow> string \<Rightarrow> nat \<Rightarrow> batch \<Rightarrow> string \<times> string \<times> string \<times> string \<times> stream_event list
     \<Rightarrow> batch" where
  "async_step net ty tot b d =
     (case d of (url, dir, name, p, evs) \<Rightarrow>
        (let (r, w1) = dl_finish (respawn_retry net url dir name) True dir name evs (bw b);
             b1 = b\<lparr>bw := w1\<rparr>
         in case r of
              Resolved u \<Rightarrow> complete ty tot p b1
            | Rejected e \<Rightarrow> fail_with e b1
            | Pending \<Rightarrow> b1\<lparr>bpending := Suc (bpending b1)\<rparr>))"

text \<open>
  The order in which the started downloads finish is not fixed by the code: it is the
  parameter \<open>prio\<close>, a rank for each started download; the downloads finish by rank.
\<close>

definition schedule :: "(nat \<Rightarrow> nat) \<Rightarrow> 'a list \<Rightarrow> 'a list" where
  "schedule prio ds = map snd (sort_key (\<lambda>x. prio (fst x)) (zip [0..<length ds] ds))"

definition batch_outcome :: "batch \<Rightarrow> string list outcome" where
  "batch_outcome b =
     (case bfail b of
        Some e \<Rightarrow> Rejected e
      | None \<Rightarrow> if 0 < bpending b then Pending else Resolved (blibs b))"

text \<open>
  A batch: the counter is reset and the first progress event is emitted, every entry runs
  up to its first \<open>await\<close>, the downloads finish, and \<open>Promise.all\<close> settles.
\<close>

definition run_batch ::
  "network \<Rightarrow> (nat \<Rightarrow> nat) \<Rightarrow> string \<Rightarrow> nat \<Rightarrow> task list \<Rightarrow> world \<Rightarrow> batch" where
  "run_batch net prio ty tot ts w =
     (let b0 = \<lparr>bw = emit (Progress ty 0 tot) (w\<lparr>counter := 0\<rparr>), blibs = [], bfail = None,
                bpending = 0, bstarted = []\<rparr>;
          b1 = foldl (sync_step net ty tot) b0 ts
      in foldl (async_step net ty tot) b1 (schedule prio (bstarted b1)))"

text \<open>\<open>downloadToDirectory(directory, libraries, eventName)\<close>\<close>

definition downloadToDirectory ::
  "network \<Rightarrow> (nat \<Rightarrow> nat) \<Rightarrow> string \<Rightarrow> library list \<Rightarrow> string \<Rightarrow> world
     \<Rightarrow> string list outcome \<times> world" where
  "downloadToDirectory net prio directory libraries eventName w =
     (let b = run_batch net prio eventName (length libraries)
                (map (lib_task (fs w) directory) libraries) w
      in (batch_outcome b, bw b))"

text \<open>The progress events among some events, in the order emitted: label, task, total.\<close>

fun progress_of :: "event list \<Rightarrow> (string \<times> nat \<times> nat) list" where
  "progress_of [] = []"
| "progress_of (Progress ty k n # es) = (ty, k, n) # progress_of es"
| "progress_of (e # es) = progress_of es"


text \<open>
  A step is quiet when it leaves the counter and the identity store alone, deletes no file
  and emits no progress event.
\<close>

definition quiet :: "world \<Rightarrow> world \<Rightarrow> bool" where
  "quiet w w' =
     (counter w' = counter w \<and> store w' = store w
      \<and> (\<forall>p. fs w p \<noteq> None \<longrightarrow> fs w' p \<noteq> None)
      \<and> (\<exists>es. events w' = events w @ es \<and> progress_of es = []))"


text \<open>The destination of a task, and whether a task list fits the files it was made from.\<close>

fun task_file :: "task \<Rightarrow> string option" where
  "task_file (Have p) = Some p"
| "task_file (Fetch url dir name p) = Some p"
| "task_file t = None"

fun task_ok :: "(string \<Rightarrow> string option) \<Rightarrow> task \<Rightarrow> bool" where
  "task_ok files (Have p) = (files p \<noteq> None)"
| "task_ok files (Fetch url dir name p) = (path_join dir name = p)"
| "task_ok files t = True"


section \<open>The launch context\<close>

text \<open>
  The options of a launch (\<open>ILauncherOptions\<close> and \<open>IOverrides\<close> of the typings), with
  the fields the modelled code reads. An absent \<open>overrides\<close> object is one with no field
  set. \<open>authorization\<close> is a reference into the store of identity objects.
\<close>

record window =
  win_width :: "jsval option"
  win_height :: "jsval option"
  win_fullscreen :: "bool option"

record overrides =
  ov_gameDirectory :: "string option"
  ov_minecraftJar :: "string option"
  ov_directory :: "string option"
  ov_assetRoot :: "string option"
  ov_assetIndex :: "string option"
  ov_libraryRoot :: "string option"
  ov_cwd :: "string option"
  ov_detached :: "bool option"
  ov_classes :: "string list option"
  ov_url_meta :: "string option"
  ov_url_resource :: "string option"

record options =
  root :: string
  opt_os :: "string option"
  customLaunchArgs :: "arg list option"
  customArgs :: "string list option"
  version_number :: string
  version_type :: "string option"
  opt_memory :: "memory option"
  authorization :: nat
  javaPath :: "string option"
  opt_window :: "window option"
  opt_overrides :: overrides
  opt_directory :: "string option"
  opt_mcPath :: "string option"

text \<open>The version descriptor, with the fields the modelled code reads.\<close>

record asset_index_ref =
  ai_id :: string
  ai_url :: string

record version =
  v_id :: string
  v_mainClass :: string
  v_assets :: "string option"
  v_assetIndex :: "asset_index_ref option"
  v_libraries :: "library list"
  v_minecraftArguments :: "string option"
  v_arguments_game :: "arg list option"
  v_client_url :: "string option"

text \<open>\<open>getOS()\<close>: the \<open>os\<close> option when it is set, the platform's family otherwise.\<close>

definition getOS :: "string \<Rightarrow> options \<Rightarrow> string" where
  "getOS platform opts =
     (case opt_os opts of
        Some s \<Rightarrow> s
      | None \<Rightarrow> if platform = ''win32'' then ''windows''
                else if platform = ''darwin'' then ''osx'' else ''linux'')"

text \<open>\<open>getJVM()\<close>: the entry of the table for \<open>getOS()\<close>, \<open>undefined\<close> when it has none.\<close>

definition getJVM :: "string \<Rightarrow> arg" where
  "getJVM osname =
     (if osname = ''windows'' then
        AStr ''-XX:HeapDumpPath=MojangTricksIntelDriversForPerformance_javaw.exe_minecraft.exe.heapdump''
      else if osname = ''osx'' then AStr ''-XstartOnFirstThread''
      else if osname = ''linux'' then AStr ''-Xss1M''
      else AUndef)"

definition isLegacy :: "version \<Rightarrow> bool" where
  "isLegacy ver = (v_assets ver = Some ''legacy'' \<or> v_assets ver = Some ''pre-1.6'')"

text \<open>Sequencing of awaited steps: a rejection or a promise that never settles ends the run.\<close>

definition then_do ::
  "'a outcome \<times> world \<Rightarrow> ('a \<Rightarrow> world \<Rightarrow> 'b outcome \<times> world) \<Rightarrow> 'b outcome \<times> world" where
  "then_do m f =
     (case m of
        (Resolved x, w) \<Rightarrow> f x w
      | (Rejected e, w) \<Rightarrow> (Rejected e, w)
      | (Pending, w) \<Rightarrow> (Pending, w))"

text \<open>\<open>getJar()\<close>, with \<open>options.directory\<close> as launch has set it.\<close>

definition jar_path :: "options \<Rightarrow> string \<Rightarrow> string" where
  "jar_path opts directory =
     or_else (ov_minecraftJar (opt_overrides opts))
       (path_join directory (version_number opts @ ''.jar''))"

definition getJar :: "network \<Rightarrow> options \<Rightarrow> string \<Rightarrow> version \<Rightarrow> world \<Rightarrow> unit outcome \<times> world" where
  "getJar net opts directory ver w =
     (let jarPath = jar_path opts directory in
      if fs w jarPath \<noteq> None then (Resolved (), w)
      else case v_client_url ver of
             None \<Rightarrow> (Rejected ''TypeError'', w)
           | Some downloadUrl \<Rightarrow>
               then_do
                 (downloadAsync net downloadUrl (dirname jarPath) (basename jarPath) True
                    (emit (Debug ''[VoidBeam]: Downloading Minecraft jar'') w))
                 (\<lambda>u w1. (Resolved (), emit (Debug ''[VoidBeam]: Downloaded Minecraft jar'') w1)))"

text \<open>\<open>getClasses()\<close>: the libraries with an artifact that \<open>parseRule\<close> does not exclude.\<close>

definition has_artifact :: "library \<Rightarrow> bool" where
  "has_artifact lib = (case lib_downloads lib of None \<Rightarrow> False | Some d \<Rightarrow> dl_artifact d \<noteq> None)"

definition class_libraries :: "string \<Rightarrow> library list \<Rightarrow> library list" where
  "class_libraries osname libs =
     filter (\<lambda>lib. has_artifact lib \<and> \<not> parseRule osname (lib_rules lib)) libs"

definition library_directory :: "options \<Rightarrow> string" where
  "library_directory opts =
     path_resolve (or_else (ov_libraryRoot (opt_overrides opts)) (path_join (root opts) ''libraries''))"

definition getClasses ::
  "network \<Rightarrow> (nat \<Rightarrow> nat) \<Rightarrow> string \<Rightarrow> options \<Rightarrow> version \<Rightarrow> world \<Rightarrow> string list outcome \<times> world" where
  "getClasses net prio osname opts ver w =
     then_do
       (downloadToDirectory net prio (library_directory opts)
          (class_libraries osname (v_libraries ver)) ''classes'' w)
       (\<lambda>libs w1. (Resolved libs,
          emit (Debug ''[VoidBeam]: Collected class paths'') (w1\<lparr>counter := 0\<rparr>)))"

text \<open>
  \<open>getAssets()\<close>. \<open>JSON.parse\<close> of the index file is the parameter \<open>parse\<close>: the asset
  names with their hashes in the order of \<open>Object.keys(index.objects)\<close>, or \<open>None\<close> when
  it throws.
\<close>

definition asset_directory :: "options \<Rightarrow> string" where
  "asset_directory opts =
     or_else (ov_assetRoot (opt_overrides opts)) (path_join (root opts) ''assets'')"

definition asset_path :: "string \<Rightarrow> string \<Rightarrow> string" where
  "asset_path assetDirectory hash =
     path_join (path_join (path_join assetDirectory ''objects'') (take 2 hash)) hash"

definition asset_task ::
  "(string \<Rightarrow> string option) \<Rightarrow> string \<Rightarrow> string \<Rightarrow> string \<times> string \<Rightarrow> task" where
  "asset_task files assetDirectory resource a =
     (let hash = snd a; subhash = take 2 hash;
          subAsset = path_join (path_join assetDirectory ''objects'') subhash
      in if files (path_join subAsset hash) \<noteq> None then Have (path_join subAsset hash)
         else Fetch (resource @ ''/'' @ subhash @ ''/'' @ hash) subAsset hash (path_join subAsset hash))"

definition index_path :: "options \<Rightarrow> asset_index_ref \<Rightarrow> string" where
  "index_path opts ai =
     path_join (path_join (asset_directory opts) ''indexes'')
       (or_else (ov_assetIndex (opt_overrides opts)) (ai_id ai) @ ''.json'')"

definition resource_url :: "options \<Rightarrow> string" where
  "resource_url opts =
     (case ov_url_resource (opt_overrides opts) of
        None \<Rightarrow> ''https://resources.download.minecraft.net'' | Some u \<Rightarrow> u)"

text \<open>The first part of \<open>getAssets\<close>: the index file is fetched when absent, read and parsed.\<close>

definition read_index ::
  "network \<Rightarrow> (string \<Rightarrow> (string \<times> string) list option) \<Rightarrow> options \<Rightarrow> version
     \<Rightarrow> world \<Rightarrow> (string \<times> string) list outcome \<times> world" where
  "read_index net parse opts ver w =
     (case v_assetIndex ver of
        None \<Rightarrow> (Rejected ''TypeError'', w)
      | Some ai \<Rightarrow>
          (let indexPath = index_path opts ai in
           then_do
             (if fs w indexPath = None then
                downloadAsync net (ai_url ai) (dirname indexPath)
                  (or_else (ov_assetIndex (opt_overrides opts)) (ai_id ai) @ ''.json'') True
                  (emit (Debug ''[VoidBeam]: Downloading asset index'') w)
              else (Resolved (), w))
             (\<lambda>u w1.
                case fs w1 indexPath of
                  None \<Rightarrow> (Rejected ''ENOENT'', w1)
                | Some content \<Rightarrow>
                    (case parse content of
                       None \<Rightarrow> (Rejected ''SyntaxError'', w1)
                     | Some objects \<Rightarrow> (Resolved objects, w1)))))"

text \<open>The second part: the batch over the objects of the index.\<close>

definition assets_batch ::
  "network \<Rightarrow> (nat \<Rightarrow> nat) \<Rightarrow> options \<Rightarrow> (string \<times> string) list \<Rightarrow> world \<Rightarrow> batch" where
  "assets_batch net prio opts objects w =
     run_batch net prio ''assets'' (length objects)
       (map (asset_task (fs w) (asset_directory opts) (resource_url opts)) objects) w"

definition getAssets ::
  "network \<Rightarrow> (nat \<Rightarrow> nat) \<Rightarrow> (string \<Rightarrow> (string \<times> string) list option) \<Rightarrow> options \<Rightarrow> version
     \<Rightarrow> world \<Rightarrow> unit outcome \<times> world" where
  "getAssets net prio parse opts ver w =
     then_do (read_index net parse opts ver w)
       (\<lambda>objects w1.
          then_do
            (batch_outcome (assets_batch net prio opts objects w1),
             bw (assets_batch net prio opts objects w1))
            (\<lambda>libs w2. (Resolved (),
               emit (Debug ''[VoidBeam]: Downloaded assets'') (w2\<lparr>counter := 0\<rparr>))))"


section \<open>Example inputs\<close>

text \<open>Networks: every request answered 200, every request answered 404, no connection.\<close>

definition net_ok :: network where
  "net_ok url k = http 200 ''content''"

definition net_404 :: network where
  "net_404 url k = http 404 ''Not Found''"

definition net_down :: network where
  "net_down url k = transport_error ''ECONNREFUSED''"

definition lib_of :: "string \<Rightarrow> string \<Rightarrow> library" where
  "lib_of p u =
     \<lparr>lib_downloads = Some \<lparr>dl_artifact = Some \<lparr>d_path = Some p, d_url = u\<rparr>\<rparr>,
      lib_rules = None, lib_self = \<lparr>d_path = None, d_url = []\<rparr>\<rparr>"


text \<open>The tasks that start no download.\<close>

fun no_fetch :: "task \<Rightarrow> bool" where
  "no_fetch Skip = True"
| "no_fetch (Have p) = True"
| "no_fetch t = False"

text \<open>An index file with one asset, as \<open>JSON.parse\<close> reads the content \<open>net_ok\<close> serves.\<close>

definition parse_one :: "string \<Rightarrow> (string \<times> string) list option" where
  "parse_one content =
     (if content = ''content'' then Some [(''icons/icon.png'', ''bdf48ef6'')]
      else None)"

definition no_overrides :: overrides where
  "no_overrides =
     \<lparr>ov_gameDirectory = None, ov_minecraftJar = None, ov_directory = None, ov_assetRoot = None,
      ov_assetIndex = None, ov_libraryRoot = None, ov_cwd = None, ov_detached = None,
      ov_classes = None, ov_url_meta = None, ov_url_resource = None\<rparr>"

definition options_1_20 :: options where
  "options_1_20 =
     \<lparr>root = ''/mc'', opt_os = Some ''linux'', customLaunchArgs = None, customArgs = None,
      version_number = ''1.20.1'', version_type = Some ''release'',
      opt_memory = Some \<lparr>mem_min = JStr ''2G'', mem_max = JStr ''4G''\<rparr>,
      authorization = 0, javaPath = None, opt_window = None, opt_overrides = no_overrides,
      opt_directory = None, opt_mcPath = None\<rparr>"

definition version_1_20 :: version where
  "version_1_20 =
     \<lparr>v_id = ''1.20.1'', v_mainClass = ''net.minecraft.client.main.Main'', v_assets = Some ''5'',
      v_assetIndex = Some \<lparr>ai_id = ''5'', ai_url = ''https://meta/5.json''\<rparr>,
      v_libraries = [lib_of ''a/a.jar'' ''https://libs/a.jar''],
      v_minecraftArguments = None,
      v_arguments_game = Some [AStr ''--username'', AStr ''${auth_player_name}''],
      v_client_url = Some ''https://meta/client.jar''\<rparr>"

section \<open>Strings of the launcher: split, parseInt, includes, join\<close>

text \<open>\<open>s.split(c)\<close> for a one-character separator: \<open>"".split(".")\<close> is \<open>[""]\<close>.\<close>

fun split_on :: "char \<Rightarrow> string \<Rightarrow> string list" where
  "split_on c [] = [[]]"
| "split_on c (x # xs) =
     (if x = c then [] # split_on c xs
      else (case split_on c xs of [] \<Rightarrow> [[x]] | p # ps \<Rightarrow> (x # p) # ps))"

text \<open>\<open>xs[i]\<close>: \<open>undefined\<close> out of range.\<close>

definition nth_opt :: "'a list \<Rightarrow> nat \<Rightarrow> 'a option" where
  "nth_opt xs i = (if i < length xs then Some (xs ! i) else None)"

text \<open>
  \<open>parseInt(x)\<close> with no radix: leading white space is skipped, a sign is read, a prefix
  \<open>0x\<close> or \<open>0X\<close> selects base 16, and the longest run of digits is the value; with no digit
  the result is \<open>NaN\<close> (\<open>None\<close>), as it is for \<open>undefined\<close>.
\<close>

definition is_space :: "char \<Rightarrow> bool" where
  "is_space c = ((of_char c :: nat) \<in> set [9, 10, 11, 12, 13, 32])"

definition dec_digit :: "char \<Rightarrow> nat option" where
  "dec_digit c = (if is_digit c then Some (digit_val c) else None)"

definition hex_digit :: "char \<Rightarrow> nat option" where
  "hex_digit c =
     (let n = (of_char c :: nat) in
      if is_digit c then Some (digit_val c)
      else if 97 \<le> n \<and> n \<le> 102 then Some (n - 87)
      else if 65 \<le> n \<and> n \<le> 70 then Some (n - 55)
      else None)"

definition parse_digits :: "(char \<Rightarrow> nat option) \<Rightarrow> nat \<Rightarrow> string \<Rightarrow> nat option" where
  "parse_digits dv radix s =
     (let ds = takeWhile (\<lambda>c. dv c \<noteq> None) s
      in if ds = [] then None
         else Some (foldl (\<lambda>acc c. radix * acc + (case dv c of Some d \<Rightarrow> d | None \<Rightarrow> 0)) 0 ds))"

definition parseInt :: "string option \<Rightarrow> int option" where
  "parseInt x =
     (case x of
        None \<Rightarrow> None
      | Some s \<Rightarrow>
          (let s1 = dropWhile is_space s;
               neg = (s1 \<noteq> [] \<and> hd s1 = CHR ''-'');
               s2 = (if s1 \<noteq> [] \<and> (hd s1 = CHR ''-'' \<or> hd s1 = CHR ''+'') then tl s1 else s1);
               hex = (2 \<le> length s2 \<and> hd s2 = CHR ''0''
                        \<and> (s2 ! 1 = CHR ''x'' \<or> s2 ! 1 = CHR ''X''));
               r = (if hex then parse_digits hex_digit 16 (drop 2 s2)
                    else parse_digits dec_digit 10 s2)
           in map_option (\<lambda>n. if neg then - int n else int n) r))"

text \<open>\<open>parseInt(id.split('.')[1])\<close> and \<open>parseInt(id.split('.')[2])\<close> of a version id.\<close>

definition minor_version :: "string \<Rightarrow> int option" where
  "minor_version vid = parseInt (nth_opt (split_on (CHR ''.'') vid) 1)"

definition patch_version :: "string \<Rightarrow> int option" where
  "patch_version vid = parseInt (nth_opt (split_on (CHR ''.'') vid) 2)"

text \<open>Comparisons with a possible \<open>NaN\<close> are false; \<open>!x\<close> is true for \<open>NaN\<close> and 0.\<close>

definition nan_lt :: "int option \<Rightarrow> int \<Rightarrow> bool" where
  "nan_lt a n = (case a of None \<Rightarrow> False | Some x \<Rightarrow> x < n)"

definition nan_gt :: "int option \<Rightarrow> int \<Rightarrow> bool" where
  "nan_gt a n = (case a of None \<Rightarrow> False | Some x \<Rightarrow> n < x)"

definition nan_ge :: "int option \<Rightarrow> int \<Rightarrow> bool" where
  "nan_ge a n = (case a of None \<Rightarrow> False | Some x \<Rightarrow> n \<le> x)"

definition nan_eq :: "int option \<Rightarrow> int \<Rightarrow> bool" where
  "nan_eq a n = (a = Some n)"

definition nan_falsy :: "int option \<Rightarrow> bool" where
  "nan_falsy a = (case a of None \<Rightarrow> True | Some x \<Rightarrow> x = 0)"

text \<open>\<open>s.includes(pat)\<close>\<close>

fun starts_with :: "string \<Rightarrow> string \<Rightarrow> bool" where
  "starts_with [] s = True"
| "starts_with (p # ps) [] = False"
| "starts_with (p # ps) (c # cs) = (p = c \<and> starts_with ps cs)"

fun str_includes :: "string \<Rightarrow> string \<Rightarrow> bool" where
  "str_includes [] pat = (pat = [])"
| "str_includes (c # cs) pat = (starts_with pat (c # cs) \<or> str_includes cs pat)"

text \<open>\<open>xs.join(sep)\<close> of an array of strings.\<close>

fun js_join :: "string \<Rightarrow> string list \<Rightarrow> string" where
  "js_join sep [] = []"
| "js_join sep [x] = x"
| "js_join sep (x # y # ys) = x @ sep @ js_join sep (y # ys)"

section \<open>Launch options (handler.js, getLaunchOptions)\<close>

definition default_meta :: meta where
  "default_meta = \<lparr>meta_type = ''offline'', meta_demo = None, meta_xuid = None, meta_legacy = None\<rparr>"

text \<open>The array the substitution starts from: \<open>minecraftArguments\<close> split at spaces when
  it is a non-empty string, \<open>arguments.game\<close> otherwise (\<open>None\<close>: reading it throws).\<close>

definition initial_args :: "version \<Rightarrow> arg list option" where
  "initial_args ver =
     (case v_minecraftArguments ver of
        None \<Rightarrow> v_arguments_game ver
      | Some s \<Rightarrow> if s = [] then v_arguments_game ver else Some (map AStr (split_on (CHR '' '') s)))"

definition asset_root_path :: "options \<Rightarrow> version \<Rightarrow> string" where
  "asset_root_path opts ver =
     (if isLegacy ver then path_join (root opts) ''resources''
      else path_resolve (or_else (ov_assetRoot (opt_overrides opts)) (path_join (root opts) ''assets'')))"

text \<open>\<open>overrides.assetIndex || this.version.assetIndex.id\<close>: \<open>None\<close> when reading it throws.\<close>

definition assets_index_name :: "options \<Rightarrow> version \<Rightarrow> string option" where
  "assets_index_name opts ver =
     (case ov_assetIndex (opt_overrides opts) of
        None \<Rightarrow> map_option ai_id (v_assetIndex ver)
      | Some s \<Rightarrow> if s = [] then map_option ai_id (v_assetIndex ver) else Some s)"

definition window_size :: "window option \<Rightarrow> (window \<Rightarrow> jsval option) \<Rightarrow> int \<Rightarrow> arg" where
  "window_size wo sel dflt =
     (case wo of
        None \<Rightarrow> ANum dflt
      | Some wn \<Rightarrow> (case sel wn of None \<Rightarrow> AUndef | Some v \<Rightarrow> arg_of v))"

text \<open>The table \<open>fields\<close>.\<close>

definition fields_table :: "options \<Rightarrow> version \<Rightarrow> identity \<Rightarrow> meta \<Rightarrow> string \<Rightarrow> (string \<times> arg) list" where
  "fields_table opts ver idn m indexName =
     [(''${auth_player_name}'', AStr (id_name idn)),
      (''${version_name}'', AStr (version_number opts)),
      (''${game_directory}'', AStr (or_else (ov_gameDirectory (opt_overrides opts)) (root opts))),
      (''${assets_root}'', AStr (asset_root_path opts ver)),
      (''${assets_index_name}'', AStr indexName),
      (''${auth_uuid}'', AStr (uuid idn)),
      (''${auth_access_token}'', AStr (access_token idn)),
      (''${user_type}'', AStr (meta_type m)),
      (''${version_type}'', AStr (or_else (version_type opts) ''release'')),
      (''${resolution_width}'', window_size (opt_window opts) win_width 856),
      (''${resolution_height}'', window_size (opt_window opts) win_height 482)]"

text \<open>The window options pushed after the loop.\<close>

definition window_args :: "window option \<Rightarrow> arg list" where
  "window_args wo =
     (case wo of
        None \<Rightarrow> []
      | Some wn \<Rightarrow>
          if win_fullscreen wn = Some True then [AStr ''--fullscreen'']
          else (case win_width wn of
                  None \<Rightarrow> []
                | Some v \<Rightarrow> if truthy v then [AStr ''--width'', arg_of v] else [])
             @ (case win_height wn of
                  None \<Rightarrow> []
                | Some v \<Rightarrow> if truthy v then [AStr ''--height'', arg_of v] else []))"

text \<open>\<open>typeof value === 'string' || typeof value === 'number'\<close>\<close>

definition is_token :: "arg \<Rightarrow> bool" where
  "is_token a = (case a of AStr s \<Rightarrow> True | ANum n \<Rightarrow> True | _ \<Rightarrow> False)"

text \<open>
  \<open>getLaunchOptions(null)\<close>. The line
  \<open>this.options.authorization.meta = this.options.authorization.meta || { type: 'offline' }\<close>
  writes to the identity object that \<open>options.authorization\<close> refers to, which is the
  caller's (\<open>launch\<close> copies the options object, not the objects it refers to).
\<close>

definition getLaunchOptions :: "string \<Rightarrow> options \<Rightarrow> version \<Rightarrow> world \<Rightarrow> arg list outcome \<times> world" where
  "getLaunchOptions osname opts ver w =
     (case initial_args ver of
        None \<Rightarrow> (Rejected ''TypeError'', w)
      | Some args0 \<Rightarrow>
          (let args1 = (case customLaunchArgs opts of None \<Rightarrow> args0 | Some c \<Rightarrow> args0 @ c) in
           case store w (authorization opts) of
             None \<Rightarrow> (Rejected ''TypeError'', w)
           | Some idn \<Rightarrow>
               (let m = (case id_meta idn of None \<Rightarrow> default_meta | Some m0 \<Rightarrow> m0);
                    w1 = w\<lparr>store := (store w)(authorization opts \<mapsto> idn\<lparr>id_meta := Some m\<rparr>)\<rparr>
                in case assets_index_name opts ver of
                     None \<Rightarrow> (Rejected ''TypeError'', w1)
                   | Some indexName \<Rightarrow>
                       (let tbl = map_of (fields_table opts ver idn m indexName);
                            args2 = expand_args tbl osname args1;
                            args3 = args2 @ window_args (opt_window opts)
                        in (Resolved (filter is_token args3),
                            emit (Debug ''[VoidBeam]: Set launch options'') w1)))))"


section \<open>Launching (the client, launch)\<close>

text \<open>
  What launch takes from its surroundings: the platform, the package version that
  \<open>printVersion\<close> reports, what \<open>checkJava\<close> answers (an error, or the line it reports),
  whether the root directory exists, what \<open>getVersion\<close> resolves to (an \<open>Error\<close> or the
  version descriptor), what \<open>getNatives\<close> resolves to, the network, the order in which the
  downloads of the two batches finish, \<open>JSON.parse\<close> of the asset index and \<open>Number\<close> of
  a string.
\<close>

record env =
  env_platform :: string
  env_package :: "string option"
  env_java :: "string + string"
  env_root_exists :: bool
  env_version :: "(string + version) outcome"
  env_natives :: "string outcome"
  env_net :: network
  env_prio_classes :: "nat \<Rightarrow> nat"
  env_prio_assets :: "nat \<Rightarrow> nat"
  env_parse :: "string \<Rightarrow> (string \<times> string) list option"
  env_num :: "string \<Rightarrow> int option"

text \<open>The child process \<open>startMinecraft\<close> spawns.\<close>

record process =
  p_command :: string
  p_args :: "arg list"
  p_cwd :: string
  p_detached :: bool

definition printVersion :: "env \<Rightarrow> world \<Rightarrow> world" where
  "printVersion e w =
     (case env_package e of
        Some v \<Rightarrow> emit (Debug (''[VoidBeam]: VoidBeam Core version '' @ v)) w
      | None \<Rightarrow> emit (Debug ''[VoidBeam]: Package JSON not found, skipping version check.'') w)"

definition createRootDirectory :: "env \<Rightarrow> world \<Rightarrow> world" where
  "createRootDirectory e w =
     (if env_root_exists e then w
      else emit (Debug ''[VoidBeam]: Attempting to create root folder'') w)"

definition version_directory :: "options \<Rightarrow> string" where
  "version_directory opts =
     or_else (ov_directory (opt_overrides opts))
       (path_join (path_join (root opts) ''versions'') (version_number opts))"

text \<open>The JVM flags before the log4j block: the fixed ones, the heap flags, the flag of
  the OS, the custom ones.\<close>

definition os_flag :: "string \<Rightarrow> string \<Rightarrow> arg list" where
  "os_flag osname vid =
     (if osname = ''osx'' then (if nan_gt (minor_version vid) 12 then [getJVM osname] else [])
      else [getJVM osname])"

definition jvm_flags :: "string \<Rightarrow> string \<Rightarrow> string \<Rightarrow> string list \<Rightarrow> options \<Rightarrow> arg list" where
  "jvm_flags osname vid nativePath mem opts =
     map AStr
       ([''-XX:-UseAdaptiveSizePolicy'',
         ''-XX:-OmitStackTraceInFastThrow'',
         ''-Dfml.ignorePatchDiscrepancies=true'',
         ''-Dfml.ignoreInvalidMinecraftCertificates=true'',
         ''-Djava.library.path='' @ nativePath] @ mem)
     @ os_flag osname vid
     @ (case customArgs opts of None \<Rightarrow> [] | Some c \<Rightarrow> map AStr c)"

text \<open>\<open>jvm.find(arg => arg.includes('Dlog4j.configurationFile'))\<close>, as a condition;
  \<open>includes\<close> of a value that is not a string throws.\<close>

fun find_log4j :: "arg list \<Rightarrow> string + bool" where
  "find_log4j [] = Inr False"
| "find_log4j (AStr s # xs) =
     (if str_includes s ''Dlog4j.configurationFile'' then Inr True else find_log4j xs)"
| "find_log4j (a # xs) = Inl ''TypeError''"

definition log4j_url_112 :: string where
  "log4j_url_112 = ''https://launcher.mojang.com/v1/objects/02937d122c86ce73319ef9975b58896fc1b491d1/log4j2_112-116.xml''"

definition log4j_url_17 :: string where
  "log4j_url_17 = ''https://launcher.mojang.com/v1/objects/dd2b723346a8dcd48e7f4d245f6bf09e98db9696/log4j2_17-111.xml''"

definition config_path :: "options \<Rightarrow> string" where
  "config_path opts = path_resolve (or_else (ov_cwd (opt_overrides opts)) (root opts))"

text \<open>The first log4j block: the configuration file for the versions below 1.17.\<close>

definition log4j_config :: "network \<Rightarrow> options \<Rightarrow> string \<Rightarrow> arg list \<Rightarrow> world \<Rightarrow> arg list outcome \<times> world" where
  "log4j_config net opts vid jvm w =
     (if nan_lt (minor_version vid) 17 then
        (case find_log4j jvm of
           Inl e \<Rightarrow> (Rejected e, w)
         | Inr True \<Rightarrow> (Resolved jvm, w)
         | Inr False \<Rightarrow>
             if nan_ge (minor_version vid) 12 then
               then_do (downloadAsync net log4j_url_112 (config_path opts) ''log4j2_112-116.xml'' True w)
                 (\<lambda>u w1. (Resolved (jvm @ [AStr ''-Dlog4j.configurationFile=log4j2_112-116.xml'']), w1))
             else if nan_ge (minor_version vid) 7 then
               then_do (downloadAsync net log4j_url_17 (config_path opts) ''log4j2_17-111.xml'' True w)
                 (\<lambda>u w1. (Resolved (jvm @ [AStr ''-Dlog4j.configurationFile=log4j2_17-111.xml'']), w1))
             else (Resolved jvm, w))
      else (Resolved jvm, w))"

text \<open>The second log4j block: the fixed flag for 1.18 and 1.17.\<close>

definition log4j_lookups :: "string \<Rightarrow> arg list \<Rightarrow> arg list" where
  "log4j_lookups vid jvm =
     (let jvm1 = (if nan_eq (minor_version vid) 18 \<and> nan_falsy (patch_version vid)
                  then jvm @ [AStr ''-Dlog4j2.formatMsgNoLookups=true''] else jvm)
      in if nan_eq (minor_version vid) 17
         then jvm1 @ [AStr ''-Dlog4j2.formatMsgNoLookups=true''] else jvm1)"

definition log4j_patch :: "network \<Rightarrow> options \<Rightarrow> string \<Rightarrow> arg list \<Rightarrow> world \<Rightarrow> arg list outcome \<times> world" where
  "log4j_patch net opts vid jvm w =
     then_do (log4j_config net opts vid jvm w) (\<lambda>jvm1 w1. (Resolved (log4j_lookups vid jvm1), w1))"

text \<open>The class path block.\<close>

definition separator :: "string \<Rightarrow> string" where
  "separator osname = (if osname = ''windows'' then '';'' else '':'')"

definition cleanUp :: "string list \<Rightarrow> string list" where
  "cleanUp xs = xs"

definition launch_classes ::
  "network \<Rightarrow> (nat \<Rightarrow> nat) \<Rightarrow> string \<Rightarrow> options \<Rightarrow> version \<Rightarrow> world \<Rightarrow> string list outcome \<times> world" where
  "launch_classes net prio osname opts ver w =
     (case ov_classes (opt_overrides opts) of
        Some cs \<Rightarrow> (Resolved cs, w)
      | None \<Rightarrow> then_do (getClasses net prio osname opts ver w) (\<lambda>libs w1. (Resolved (cleanUp libs), w1)))"

definition runtime_jar :: "options \<Rightarrow> string \<Rightarrow> world \<Rightarrow> string" where
  "runtime_jar opts directory w =
     (if fs w (jar_path opts directory) \<noteq> None then jar_path opts directory
      else path_join directory (version_number opts @ ''.jar''))"

definition class_path_token :: "string \<Rightarrow> string list \<Rightarrow> string \<Rightarrow> string" where
  "class_path_token osname classes jar = js_join (separator osname) classes @ separator osname @ jar"

definition classPaths :: "string \<Rightarrow> string list \<Rightarrow> string \<Rightarrow> string \<Rightarrow> arg list" where
  "classPaths osname classes jar mainClass =
     [AStr ''-cp'', AStr (class_path_token osname classes jar), AStr mainClass]"

definition startMinecraft :: "options \<Rightarrow> arg list \<Rightarrow> process" where
  "startMinecraft opts launchArguments =
     \<lparr>p_command = (case javaPath opts of None \<Rightarrow> ''java'' | Some j \<Rightarrow> if j = [] then ''java'' else j),
      p_args = launchArguments,
      p_cwd = or_else (ov_cwd (opt_overrides opts)) (root opts),
      p_detached = (case ov_detached (opt_overrides opts) of None \<Rightarrow> True | Some d \<Rightarrow> d)\<rparr>"

definition show_arg :: "arg \<Rightarrow> string" where
  "show_arg a = (case a of AStr s \<Rightarrow> s | ANum n \<Rightarrow> show_int n | _ \<Rightarrow> [])"

text \<open>
  The part of \<open>launch\<close> after the version descriptor is there, block by block, each
  block handing over to the next: the spawn; the launch options; the class path tokens and
  the assets; the classes; the JVM flags with the log4j block; the jar; the natives.
\<close>

definition launch_spawn :: "options \<Rightarrow> arg list \<Rightarrow> arg list \<Rightarrow> world \<Rightarrow> process option outcome \<times> world" where
  "launch_spawn opts pre launchOptions w =
     (let launchArguments = pre @ launchOptions;
          w1 = emit (Debug (''[VoidBeam]: Launching with arguments ''
                              @ js_join '' '' (map show_arg launchArguments)))
                 (emit (Arguments launchArguments) w)
      in (Resolved (Some (startMinecraft opts launchArguments)), w1))"

definition launch_args ::
  "string \<Rightarrow> options \<Rightarrow> version \<Rightarrow> arg list \<Rightarrow> world \<Rightarrow> process option outcome \<times> world" where
  "launch_args osname opts ver pre w =
     then_do (getLaunchOptions osname opts ver w) (launch_spawn opts pre)"

definition launch_assets ::
  "env \<Rightarrow> string \<Rightarrow> options \<Rightarrow> string \<Rightarrow> version \<Rightarrow> arg list \<Rightarrow> string list \<Rightarrow> world
     \<Rightarrow> process option outcome \<times> world" where
  "launch_assets e osname opts directory ver jvm classes w =
     (let w1 = emit (Debug (''[VoidBeam]: Using '' @ separator osname @ '' to separate class paths'')) w;
          cps = classPaths osname classes (runtime_jar opts directory w1) (v_mainClass ver);
          w2 = emit (Debug ''[VoidBeam]: Attempting to download assets'') w1
      in then_do (getAssets (env_net e) (env_prio_assets e) (env_parse e) opts ver w2)
           (\<lambda>u. launch_args osname opts ver (jvm @ cps)))"

definition launch_cp ::
  "env \<Rightarrow> string \<Rightarrow> options \<Rightarrow> string \<Rightarrow> version \<Rightarrow> arg list \<Rightarrow> world
     \<Rightarrow> process option outcome \<times> world" where
  "launch_cp e osname opts directory ver jvm w =
     then_do (launch_classes (env_net e) (env_prio_classes e) osname opts ver w)
       (launch_assets e osname opts directory ver jvm)"

definition launch_jvm ::
  "env \<Rightarrow> string \<Rightarrow> options \<Rightarrow> string \<Rightarrow> version \<Rightarrow> string \<Rightarrow> world
     \<Rightarrow> process option outcome \<times> world" where
  "launch_jvm e osname opts directory ver nativePath w =
     (let mf = memory_flags (env_num e) (opt_memory opts);
          w1 = w\<lparr>events := events w @ snd (snd mf)\<rparr>;
          jvm = jvm_flags osname (v_id ver) nativePath (fst mf) opts
      in then_do (log4j_patch (env_net e) opts (v_id ver) jvm w1)
           (launch_cp e osname opts directory ver))"

definition launch_jar ::
  "env \<Rightarrow> string \<Rightarrow> options \<Rightarrow> string \<Rightarrow> version \<Rightarrow> string \<Rightarrow> world
     \<Rightarrow> process option outcome \<times> world" where
  "launch_jar e osname opts directory ver nativePath w =
     then_do
       (if fs w (jar_path opts directory) = None then
          getJar (env_net e) opts directory ver
            (emit (Debug ''[VoidBeam]: Attempting to download Minecraft version jar'') w)
        else (Resolved (), w))
       (\<lambda>u. launch_jvm e osname opts directory ver nativePath)"

definition launch_version ::
  "env \<Rightarrow> options \<Rightarrow> string \<Rightarrow> version \<Rightarrow> world \<Rightarrow> process option outcome \<times> world" where
  "launch_version e opts directory ver w =
     then_do (env_natives e, w)
       (launch_jar e (getOS (env_platform e) opts) opts directory ver)"

text \<open>The \<open>catch\<close> of \<open>launch\<close>: a thrown error becomes a debug event, \<open>close\<close> with
  code 1, and the result \<open>null\<close>.\<close>

definition catch_close :: "process option outcome \<times> world \<Rightarrow> process option outcome \<times> world" where
  "catch_close m =
     (case m of
        (Rejected err, w) \<Rightarrow>
          (Resolved None,
           emit (Close_ev 1)
             (emit (Debug (''[VoidBeam]: Failed to start due to '' @ err @ '', closing...'')) w))
      | (r, w) \<Rightarrow> (r, w))"

text \<open>\<open>launch(options)\<close>: the promise it returns (\<open>None\<close> is \<open>null\<close>) and the world.\<close>

definition launch :: "env \<Rightarrow> options \<Rightarrow> world \<Rightarrow> process option outcome \<times> world" where
  "launch e options w =
     (let opts = options\<lparr>root := path_resolve (root options)\<rparr>;
          w1 = printVersion e w
      in catch_close
           (case env_java e of
              Inl msg \<Rightarrow>
                (Resolved None,
                 emit (Close_ev 1)
                   (emit (Debug (''[VoidBeam]: Couldn'' @ CHR 0x27 # ''t start Minecraft due to: '' @ msg)) w1))
            | Inr line \<Rightarrow>
                then_do (env_version e, createRootDirectory e (emit (Debug line) w1))
                  (\<lambda>versionFile w3.
                     case versionFile of
                       Inl msg \<Rightarrow>
                         (Resolved None,
                          emit (Close_ev 1) (emit (Debug (''[VoidBeam]: '' @ msg)) w3))
                     | Inr ver \<Rightarrow> launch_version e opts (version_directory opts) ver w3)))"

text \<open>Example surroundings: everything is there and answers; then with a jar that the
  server does not have; an identity as the authenticator returns it for offline play, and one
  built by hand without \<open>meta\<close>.\<close>

definition env_ok :: env where
  "env_ok =
     \<lparr>env_platform = ''linux'', env_package = Some ''1.0.0'',
      env_java = Inr ''[VoidBeam]: Using Java version 17.0.1 64-bit'',
      env_root_exists = True,
      env_version = Resolved (Inr version_1_20),
      env_natives = Resolved ''/mc'',
      env_net = net_ok, env_prio_classes = id, env_prio_assets = id,
      env_parse = parse_one, env_num = decimal\<rparr>"

definition net_no_jar :: network where
  "net_no_jar url k = (if url = ''https://meta/client.jar'' then http 404 ''Not Found'' else http 200 ''content'')"

definition steve :: identity where
  "steve =
     \<lparr>access_token = ''token'', client_token = ''token'', uuid = ''uuid'', id_name = ''Steve'',
      user_properties = ''{}'', id_meta = Some (default_meta\<lparr>meta_demo := Some False\<rparr>)\<rparr>"

definition steve_no_meta :: identity where
  "steve_no_meta = steve\<lparr>id_meta := None\<rparr>"

definition world_with :: "identity \<Rightarrow> world" where
  "world_with idn = world0\<lparr>store := [0 \<mapsto> idn]\<rparr>"



text \<open>The example options with a class path override, as \<open>overrides.classes\<close> gives one.\<close>

definition options_classes :: options where
  "options_classes = options_1_20\<lparr>opt_overrides := no_overrides\<lparr>ov_classes := Some [''/x.jar'']\<rparr>\<rparr>"

text \<open>The surroundings with a server that does not have the jar, and without a connection.\<close>

definition env_no_jar :: env where
  "env_no_jar = env_ok\<lparr>env_net := net_no_jar\<rparr>"

definition env_down :: env where
  "env_down = env_ok\<lparr>env_net := net_down\<rparr>"

section \<open>Theorems\<close>

subsection \<open>Library rules\<close>

lemma parseRule_step_snoc:
  "foldl (parseRule_step target) b (rs @ [r]) = parseRule_step target (foldl (parseRule_step target) b rs) r"
  by simp

lemma foldl_parseRule_last_write:
  "foldl (parseRule_step target) False rs = last_write_verdict target rs"
proof (induction rs rule: rev_induct)
  case Nil
  show ?case by (simp add: last_write_verdict_def)
next
  case (snoc r rs)
  have step: "foldl (parseRule_step target) False (rs @ [r])
      = parseRule_step target (last_write_verdict target rs) r"
    using snoc.IH by simp
  show ?case
  proof (cases "rule_writes target r")
    case True
    then have "last_write_verdict target (rs @ [r])
        = (action r = ''allow'' \<and> rule_matches target r)"
      by (simp add: last_write_verdict_def Let_def)
    moreover have "parseRule_step target (last_write_verdict target rs) r
        = (action r = ''allow'' \<and> rule_matches target r)"
      using True
      by (auto simp: parseRule_step_def rule_writes_def rule_matches_def split: option.splits)
    ultimately show ?thesis using step by simp
  next
    case False
    then have "last_write_verdict target (rs @ [r]) = last_write_verdict target rs"
      by (simp add: last_write_verdict_def Let_def)
    moreover have "parseRule_step target (last_write_verdict target rs) r
        = last_write_verdict target rs"
      using False
      by (auto simp: parseRule_step_def rule_writes_def split: option.splits)
    ultimately show ?thesis using step by simp
  qed
qed

lemma lib_included_last_write:
  "lib_included target (Some rs) = last_write_verdict target rs"
  by (simp add: lib_included_def parseRule_def foldl_parseRule_last_write)

lemma last_write_verdict_snoc_allow_any:
  "last_write_verdict target (rs @ [allow_any])"
  by (simp add: last_write_verdict_def Let_def rule_writes_def rule_matches_def allow_any_def)

lemma last_write_verdict_allow_then_disallow:
  "last_write_verdict target [allow_any, disallow_os a] = (target \<noteq> a)"
  by (auto simp: last_write_verdict_def Let_def rule_writes_def rule_matches_def
      allow_any_def disallow_os_def os_is_def)

text \<open>
  C1, as the code has it. \<open>parseRule\<close> reads the rules left to right and the last rule
  that writes the flag decides: an allow rule writes whether it matches the target OS (it
  matches every OS when it has no OS constraint), a disallow rule writes "excluded" only when
  it names the target OS and is skipped otherwise. The flag starts at "excluded". Hence a
  library whose \<open>rules\<close> field is absent is always included; a rule list that ends in an
  unconstrained allow is included on every platform; and after an unconstrained allow, a
  disallow rule constrained to an OS excludes exactly that OS.
\<close>

theorem parseRule_last_write_wins:
  "lib_included target None
   \<and> lib_included target (Some rs) = last_write_verdict target rs
   \<and> lib_included target (Some (rs @ [allow_any]))
   \<and> lib_included target (Some [allow_any, disallow_os a]) = (target \<noteq> a)"
proof -
  have "lib_included target None"
    by (simp add: lib_included_def parseRule_def)
  moreover have "lib_included target (Some (rs @ [allow_any]))"
    by (simp add: lib_included_last_write last_write_verdict_snoc_allow_any)
  moreover have "lib_included target (Some [allow_any, disallow_os a]) = (target \<noteq> a)"
    by (simp add: lib_included_last_write last_write_verdict_allow_then_disallow)
  ultimately show ?thesis
    by (simp add: lib_included_last_write)
qed

theorem parseRule_last_write_wins_witness:
  "lib_included ''linux'' None
   \<and> lib_included ''linux'' (Some [disallow_os ''linux'', allow_any])
   \<and> lib_included ''linux'' (Some [allow_any, disallow_os ''osx''])
   \<and> \<not> lib_included ''osx'' (Some [allow_any, disallow_os ''osx''])"
  using parseRule_last_write_wins [of "''linux''" "[disallow_os ''linux'']" "''osx''"]
    parseRule_last_write_wins [of "''osx''" "[]" "''osx''"]
  by simp

text \<open>
  C1 as stated fails on the code in three places: on linux the last matching rule of
  \<open>[allow, allow(osx)]\<close> is the unconstrained allow, yet the library is excluded (the
  non-matching allow rule overwrites the flag); a lone \<open>disallow(osx)\<close> excludes the
  library on linux as well, not exactly on osx; and an empty rule list excludes.
\<close>

theorem parseRule_last_match_counterexample:
  "spec_last_match ''linux'' [allow_any, allow_os ''osx''] = Some True
   \<and> parseRule ''linux'' (Some [allow_any, allow_os ''osx''])
   \<and> parseRule ''linux'' (Some [disallow_os ''osx''])
   \<and> parseRule ''linux'' (Some [])"
  by (simp add: spec_last_match_def parseRule_def parseRule_step_def rule_matches_def
      allow_any_def allow_os_def disallow_os_def os_is_def)


subsection \<open>Memory settings\<close>

lemma show_int_1023: "show_int 1023 = ''1023''"
  by (simp add: show_int_def show_nat.simps digit_char_def)

lemma show_int_512: "show_int 512 = ''512''"
  by (simp add: show_int_def show_nat.simps digit_char_def)

lemma getMemory_default:
  "getMemory num None =
     ((''1023M'', ''512M''), default_memory,
      [Debug ''[VoidBeam]: Memory not set! Setting 1GB as MAX!''])"
  by (simp add: getMemory_def default_memory_def js_isNaN_def toNumber_def js_lt_def
      template_def show_int_1023 show_int_512)

lemma getMemory_of_default:
  "getMemory num (Some default_memory) = ((''1023M'', ''512M''), default_memory, [])"
  by (simp add: getMemory_def default_memory_def js_isNaN_def toNumber_def js_lt_def
      template_def show_int_1023 show_int_512)

lemma getMemory_reset:
  assumes "\<not> js_isNaN num (mem_max m)" "\<not> js_isNaN num (mem_min m)"
    and "js_lt num (mem_max m) (mem_min m)"
  shows "getMemory num (Some m) =
     ((''1023M'', ''512M''), default_memory,
      [Debug ''[VoidBeam]: MIN memory is higher than MAX! Resetting!''])"
  using assms
  by (simp add: getMemory_def default_memory_def template_def show_int_1023 show_int_512)

lemma getMemory_keep:
  assumes "\<not> js_isNaN num (mem_max m)" "\<not> js_isNaN num (mem_min m)"
    and "\<not> js_lt num (mem_max m) (mem_min m)"
  shows "getMemory num (Some m) =
     ((template (mem_max m) @ ''M'', template (mem_min m) @ ''M''), m, [])"
  using assms by (simp add: getMemory_def)

lemma getMemory_verbatim:
  assumes "js_isNaN num (mem_max m) \<or> js_isNaN num (mem_min m)"
  shows "getMemory num (Some m) = ((template (mem_max m), template (mem_min m)), m, [])"
  using assms by (auto simp: getMemory_def)

lemma js_lt_numbers:
  assumes "toNumber num a = Some x" "toNumber num b = Some y" "\<not> (is_str a \<and> is_str b)"
  shows "js_lt num a b = (x < y)"
  using assms by (auto simp: js_lt_def is_str_def split: jsval.splits)

lemma getMemory_ordered:
  assumes "toNumber num (mem_max m) = Some x" "toNumber num (mem_min m) = Some y"
    and "\<not> (is_str (mem_max m) \<and> is_str (mem_min m))"
  shows "\<exists>x' y'. toNumber num (mem_max (fst (snd (getMemory num (Some m))))) = Some x'
            \<and> toNumber num (mem_min (fst (snd (getMemory num (Some m))))) = Some y'
            \<and> y' \<le> x'"
proof (cases "x < y")
  case True
  then have "js_lt num (mem_max m) (mem_min m)"
    using assms by (simp add: js_lt_numbers)
  then have "fst (snd (getMemory num (Some m))) = default_memory"
    using assms by (simp add: getMemory_reset js_isNaN_def)
  then show ?thesis
    by (simp add: default_memory_def toNumber_def)
next
  case False
  then have "\<not> js_lt num (mem_max m) (mem_min m)"
    using assms by (simp add: js_lt_numbers)
  then have "fst (snd (getMemory num (Some m))) = m"
    using assms by (simp add: getMemory_keep js_isNaN_def)
  then show ?thesis
    using assms False by simp
qed

lemma memory_flags_default:
  "fst (memory_flags num None) = [''-Xmx1023M'', ''-Xms512M'']"
  by (simp add: memory_flags_def getMemory_default getMemory_of_default)

lemma memory_flags_verbatim:
  assumes "js_isNaN num (mem_max m) \<or> js_isNaN num (mem_min m)"
  shows "fst (memory_flags num (Some m)) = [''-Xmx'' @ template (mem_max m), ''-Xms'' @ template (mem_min m)]"
  using assms by (simp add: memory_flags_def getMemory_verbatim)

text \<open>
  C10, as the code has it. With no memory option \<open>getMemory\<close> sets and returns the default
  max 1023 and min 512, and the heap flags are \<open>-Xmx1023M\<close> and \<open>-Xms512M\<close>. When both
  values are numeric (not \<open>NaN\<close>) and \<open>max < min\<close> holds, both are reset to that default;
  when both are numeric and it does not hold, both are returned with the suffix \<open>M\<close>; when
  either value is not numeric, BOTH are passed through verbatim, with no suffix. When both
  values are numeric and not both of them are strings, the memory option that is left
  satisfies \<open>max \<ge> min\<close>. (What \<open><\<close> answers for two numeric strings is not part of the
  statement.)
\<close>

theorem getMemory_postcondition:
  "fst (getMemory num None) = (''1023M'', ''512M'')
   \<and> fst (memory_flags num None) = [''-Xmx1023M'', ''-Xms512M'']
   \<and> (\<not> js_isNaN num (mem_max m) \<and> \<not> js_isNaN num (mem_min m)
        \<and> js_lt num (mem_max m) (mem_min m) \<longrightarrow>
      fst (getMemory num (Some m)) = (''1023M'', ''512M'')
      \<and> fst (snd (getMemory num (Some m))) = default_memory)
   \<and> (\<not> js_isNaN num (mem_max m) \<and> \<not> js_isNaN num (mem_min m)
        \<and> \<not> js_lt num (mem_max m) (mem_min m) \<longrightarrow>
      fst (getMemory num (Some m)) = (template (mem_max m) @ ''M'', template (mem_min m) @ ''M''))
   \<and> (js_isNaN num (mem_max m) \<or> js_isNaN num (mem_min m) \<longrightarrow>
      fst (getMemory num (Some m)) = (template (mem_max m), template (mem_min m))
      \<and> fst (memory_flags num (Some m))
          = [''-Xmx'' @ template (mem_max m), ''-Xms'' @ template (mem_min m)])
   \<and> (\<not> js_isNaN num (mem_max m) \<and> \<not> js_isNaN num (mem_min m)
        \<and> \<not> (is_str (mem_max m) \<and> is_str (mem_min m)) \<longrightarrow>
      (\<exists>x y. toNumber num (mem_max (fst (snd (getMemory num (Some m))))) = Some x
           \<and> toNumber num (mem_min (fst (snd (getMemory num (Some m))))) = Some y
           \<and> y \<le> x))"
proof -
  have ordered: "\<exists>x y. toNumber num (mem_max (fst (snd (getMemory num (Some m))))) = Some x
           \<and> toNumber num (mem_min (fst (snd (getMemory num (Some m))))) = Some y
           \<and> y \<le> x"
    if h: "\<not> js_isNaN num (mem_max m)" "\<not> js_isNaN num (mem_min m)"
      "\<not> (is_str (mem_max m) \<and> is_str (mem_min m))"
  proof -
    obtain x where x: "toNumber num (mem_max m) = Some x"
      using h(1) by (cases "toNumber num (mem_max m)") (simp_all add: js_isNaN_def)
    obtain y where y: "toNumber num (mem_min m) = Some y"
      using h(2) by (cases "toNumber num (mem_min m)") (simp_all add: js_isNaN_def)
    show ?thesis using x y h(3) by (rule getMemory_ordered)
  qed
  show ?thesis
    using ordered
    by (simp add: getMemory_default memory_flags_default getMemory_reset getMemory_keep
        getMemory_verbatim memory_flags_verbatim)
qed

lemma decimal_4G: "decimal ''4G'' = None"
  by (simp add: decimal_def is_digit_def)

theorem getMemory_postcondition_witness:
  "fst (getMemory decimal (Some \<lparr>mem_min = JNum 2048, mem_max = JNum 1024\<rparr>)) = (''1023M'', ''512M'')
   \<and> fst (getMemory decimal (Some \<lparr>mem_min = JNum 512, mem_max = JStr ''2048''\<rparr>))
        = (''2048M'', ''512M'')
   \<and> fst (memory_flags decimal (Some \<lparr>mem_min = JStr ''2G'', mem_max = JStr ''4G''\<rparr>))
        = [''-Xmx4G'', ''-Xms2G'']
   \<and> (\<exists>x y. toNumber decimal (mem_max (fst (snd (getMemory decimal
              (Some \<lparr>mem_min = JNum 2048, mem_max = JNum 1024\<rparr>))))) = Some x
          \<and> toNumber decimal (mem_min (fst (snd (getMemory decimal
              (Some \<lparr>mem_min = JNum 2048, mem_max = JNum 1024\<rparr>))))) = Some y
          \<and> y \<le> x)"
proof -
  let ?m1 = "\<lparr>mem_min = JNum 2048, mem_max = JNum 1024\<rparr>"
  let ?m2 = "\<lparr>mem_min = JNum 512, mem_max = JStr ''2048''\<rparr>"
  let ?m3 = "\<lparr>mem_min = JStr ''2G'', mem_max = JStr ''4G''\<rparr>"
  have h1: "\<not> js_isNaN decimal (mem_max ?m1)" "\<not> js_isNaN decimal (mem_min ?m1)"
    "js_lt decimal (mem_max ?m1) (mem_min ?m1)"
    "\<not> (is_str (mem_max ?m1) \<and> is_str (mem_min ?m1))"
    by (simp_all add: js_isNaN_def toNumber_def js_lt_def is_str_def)
  have h2: "\<not> js_isNaN decimal (mem_max ?m2)" "\<not> js_isNaN decimal (mem_min ?m2)"
    "\<not> js_lt decimal (mem_max ?m2) (mem_min ?m2)"
    by (simp_all add: js_isNaN_def toNumber_def js_lt_def decimal_def is_digit_def digit_val_def)
  have h3: "js_isNaN decimal (mem_max ?m3) \<or> js_isNaN decimal (mem_min ?m3)"
    by (simp add: js_isNaN_def toNumber_def decimal_4G)
  have a: "fst (getMemory decimal (Some ?m1)) = (''1023M'', ''512M'')"
    using getMemory_postcondition [of decimal ?m1] h1 by blast
  have d: "\<exists>x y. toNumber decimal (mem_max (fst (snd (getMemory decimal (Some ?m1))))) = Some x
          \<and> toNumber decimal (mem_min (fst (snd (getMemory decimal (Some ?m1))))) = Some y
          \<and> y \<le> x"
    using getMemory_postcondition [of decimal ?m1] h1 by blast
  have "fst (getMemory decimal (Some ?m2))
      = (template (mem_max ?m2) @ ''M'', template (mem_min ?m2) @ ''M'')"
    using getMemory_postcondition [of decimal ?m2] h2 by blast
  then have b: "fst (getMemory decimal (Some ?m2)) = (''2048M'', ''512M'')"
    by (simp add: template_def show_int_512)
  have "fst (memory_flags decimal (Some ?m3))
      = [''-Xmx'' @ template (mem_max ?m3), ''-Xms'' @ template (mem_min ?m3)]"
    using getMemory_postcondition [of decimal ?m3] h3 by blast
  then have c: "fst (memory_flags decimal (Some ?m3)) = [''-Xmx4G'', ''-Xms2G'']"
    by (simp add: template_def)
  from a b c d show ?thesis by blast
qed

text \<open>
  C10 as stated fails where one value is numeric and the other is not: with max \<open>"4G"\<close>
  and min \<open>512\<close> the numeric 512 is returned without the suffix, and the flag is
  \<open>-Xms512\<close>.
\<close>

theorem getMemory_suffix_counterexample:
  "\<not> js_isNaN decimal (JNum 512)
   \<and> fst (getMemory decimal (Some \<lparr>mem_min = JNum 512, mem_max = JStr ''4G''\<rparr>)) = (''4G'', ''512'')
   \<and> fst (memory_flags decimal (Some \<lparr>mem_min = JNum 512, mem_max = JStr ''4G''\<rparr>))
        = [''-Xmx4G'', ''-Xms512'']"
  by (simp add: memory_flags_def getMemory_def js_isNaN_def toNumber_def decimal_4G
      template_def show_int_512)

text \<open>
  Two numeric strings are compared as strings: max \<open>"900"\<close> and min \<open>"1000"\<close> pass the
  check and are returned as they are, although the debug message of the branch says that a
  min above the max is reset.
\<close>

lemma getMemory_numeric_strings:
  "\<not> js_isNaN decimal (JStr ''900'') \<and> \<not> js_isNaN decimal (JStr ''1000'')
   \<and> fst (getMemory decimal (Some \<lparr>mem_min = JStr ''1000'', mem_max = JStr ''900''\<rparr>))
        = (''900M'', ''1000M'')"
  by (simp add: getMemory_def js_isNaN_def toNumber_def js_lt_def decimal_def is_digit_def
      template_def)


subsection \<open>Conditional arguments against library rules\<close>









subsection \<open>Steps that only download\<close>

lemma progress_of_append: "progress_of (xs @ ys) = progress_of xs @ progress_of ys"
  by (induction xs rule: progress_of.induct) simp_all

lemma quiet_refl: "quiet w w"
  by (simp add: quiet_def)

lemma quiet_trans: "quiet w w1 \<Longrightarrow> quiet w1 w2 \<Longrightarrow> quiet w w2"
  unfolding quiet_def
  by (auto simp: progress_of_append)

lemma quiet_emit_debug: "quiet w (emit (Debug m) w)"
  by (simp add: quiet_def emit_def)

lemma quiet_dl_start: "quiet w (snd (dl_start net url name w))"
  by (simp add: quiet_def dl_start_def emit_def)

lemma quiet_on_event:
  assumes "\<And>w. quiet w (respawn w)"
  shows "quiet (snd pw) (snd (on_event respawn retry name path pw ev))"
proof (cases ev)
  case (Response c)
  then show ?thesis
    using assms quiet_trans [OF quiet_emit_debug assms]
    by (auto simp: on_event_def Let_def quiet_refl quiet_emit_debug)
next
  case (StreamError e)
  then show ?thesis
    using assms quiet_trans [OF quiet_emit_debug assms]
    by (auto simp: on_event_def Let_def quiet_refl quiet_emit_debug)
next
  case (Finish body)
  then show ?thesis
    by (simp add: on_event_def Let_def quiet_def emit_def)
next
  case (WriteError e)
  then show ?thesis by (simp add: on_event_def Let_def quiet_refl)
qed

lemma quiet_foldl_on_event:
  assumes "\<And>w. quiet w (respawn w)"
  shows "quiet (snd pw) (snd (foldl (on_event respawn retry name path) pw evs))"
proof (induction evs arbitrary: pw)
  case Nil
  show ?case by (simp add: quiet_refl)
next
  case (Cons ev evs)
  show ?case
    using quiet_trans [OF quiet_on_event [OF assms] Cons.IH] by simp
qed

lemma quiet_dl_finish:
  assumes "\<And>w. quiet w (respawn w)"
  shows "quiet w (snd (dl_finish respawn retry dir name evs w))"
  using quiet_foldl_on_event [OF assms, of "(Pending, w)"] by (simp add: dl_finish_def)

lemma quiet_noretry: "quiet w (snd (downloadAsync_noretry net url dir name w))"
proof -
  have "quiet (snd (dl_start net url name w))
     (snd (dl_finish id False dir name (fst (dl_start net url name w)) (snd (dl_start net url name w))))"
    by (rule quiet_dl_finish) (simp add: quiet_refl)
  then show ?thesis
    using quiet_trans [OF quiet_dl_start]
    by (simp add: downloadAsync_noretry_def split_def Let_def)
qed

lemma quiet_respawn: "quiet w (respawn_retry net url dir name w)"
proof -
  have "quiet (snd (downloadAsync_noretry net url dir name w)) (respawn_retry net url dir name w)"
    by (auto simp: respawn_retry_def quiet_def split: prod.splits outcome.splits)
  then show ?thesis using quiet_trans [OF quiet_noretry] by blast
qed

lemma quiet_downloadAsync: "quiet w (snd (downloadAsync net url dir name retry w))"
proof -
  have "quiet (snd (dl_start net url name w))
     (snd (dl_finish (respawn_retry net url dir name) retry dir name (fst (dl_start net url name w))
        (snd (dl_start net url name w))))"
    by (rule quiet_dl_finish) (rule quiet_respawn)
  then show ?thesis
    using quiet_trans [OF quiet_dl_start]
    by (simp add: downloadAsync_def split_def Let_def)
qed

subsection \<open>The promise of a download and the file it leaves\<close>

lemma on_event_retry_promise:
  "fst (on_event respawn True name path pw ev) = write_settles (fst pw) ev"
  by (cases ev) (simp_all add: on_event_def write_settles_def Let_def)

lemma foldl_on_event_retry_promise:
  "fst (foldl (on_event respawn True name path) pw evs) = foldl write_settles (fst pw) evs"
  by (induction evs arbitrary: pw) (simp_all add: on_event_retry_promise)

lemma downloadAsync_retry_promise:
  "fst (downloadAsync net url dir name True w)
     = foldl write_settles Pending (net url (attempt_no url w))"
  by (simp add: downloadAsync_def dl_finish_def dl_start_def foldl_on_event_retry_promise)

lemma on_event_resolved_file:
  assumes q: "\<And>w. quiet w (respawn w)"
    and inv: "fst pw = Resolved () \<longrightarrow> fs (snd pw) path \<noteq> None"
  shows "fst (on_event respawn retry name path pw ev) = Resolved ()
     \<longrightarrow> fs (snd (on_event respawn retry name path pw ev)) path \<noteq> None"
proof (cases ev)
  case (Response c)
  have "fs (snd pw) path \<noteq> None \<Longrightarrow> fs (respawn (emit (Debug m) (snd pw))) path \<noteq> None" for m
    using quiet_trans [OF quiet_emit_debug q] by (simp add: quiet_def)
  then show ?thesis
    using Response inv by (auto simp: on_event_def Let_def settle_def emit_def)
next
  case (StreamError e)
  have "fs (snd pw) path \<noteq> None \<Longrightarrow> fs (respawn (emit (Debug m) (snd pw))) path \<noteq> None" for m
    using quiet_trans [OF quiet_emit_debug q] by (simp add: quiet_def)
  then show ?thesis
    using StreamError inv by (auto simp: on_event_def Let_def settle_def emit_def)
next
  case (Finish body)
  then show ?thesis by (simp add: on_event_def Let_def emit_def)
next
  case (WriteError e)
  then show ?thesis using inv by (auto simp: on_event_def Let_def settle_def)
qed

lemma foldl_on_event_resolved_file:
  assumes q: "\<And>w. quiet w (respawn w)"
    and inv: "fst pw = Resolved () \<longrightarrow> fs (snd pw) path \<noteq> None"
  shows "fst (foldl (on_event respawn retry name path) pw evs) = Resolved ()
     \<longrightarrow> fs (snd (foldl (on_event respawn retry name path) pw evs)) path \<noteq> None"
  using inv
proof (induction evs arbitrary: pw)
  case Nil
  then show ?case by simp
next
  case (Cons ev evs)
  show ?case
    using Cons.IH [OF on_event_resolved_file [OF q Cons.prems]] by simp
qed

lemma dl_finish_resolved_file:
  assumes "\<And>w. quiet w (respawn w)"
    and "fst (dl_finish respawn retry dir name evs w) = Resolved ()"
  shows "fs (snd (dl_finish respawn retry dir name evs w)) (path_join dir name) \<noteq> None"
  using foldl_on_event_resolved_file [OF assms(1), of "(Pending, w)" "path_join dir name" retry name evs]
    assms(2)
  by (simp add: dl_finish_def)

lemma downloadAsync_resolved_file:
  assumes "fst (downloadAsync net url dir name retry w) = Resolved ()"
  shows "fs (snd (downloadAsync net url dir name retry w)) (path_join dir name) \<noteq> None"
  using assms dl_finish_resolved_file [OF quiet_respawn]
  by (simp add: downloadAsync_def split_def Let_def)



subsection \<open>Batches: the progress events count the completed entries\<close>

lemma bw_fail_with [simp]: "bw (fail_with e b) = bw b"
  by (simp add: fail_with_def split: option.splits)

lemma bstarted_fail_with [simp]: "bstarted (fail_with e b) = bstarted b"
  by (simp add: fail_with_def split: option.splits)

lemma bpending_fail_with [simp]: "bpending (fail_with e b) = bpending b"
  by (simp add: fail_with_def split: option.splits)

lemma bfail_fail_with [simp]: "bfail (fail_with e b) \<noteq> None"
  by (simp add: fail_with_def split: option.splits)

lemma complete_fields [simp]:
  "bfail (complete ty tot p b) = bfail b"
  "bpending (complete ty tot p b) = bpending b"
  "bstarted (complete ty tot p b) = bstarted b"
  "counter (bw (complete ty tot p b)) = Suc (counter (bw b))"
  "fs (bw (complete ty tot p b)) = fs (bw b)"
  "requests (bw (complete ty tot p b)) = requests (bw b)"
  "store (bw (complete ty tot p b)) = store (bw b)"
  by (simp_all add: complete_def Let_def emit_def)







lemma length_schedule [simp]: "length (schedule prio ds) = length ds"
  by (simp add: schedule_def)

lemma set_schedule [simp]: "set (schedule prio ds) = set ds"
proof -
  have "set (schedule prio ds) = snd ` set (zip [0..<length ds] ds)"
    by (simp add: schedule_def)
  also have "\<dots> = set (map snd (zip [0..<length ds] ds))"
    by (simp only: set_map)
  also have "\<dots> = set ds"
    by (simp add: map_snd_zip)
  finally show ?thesis .
qed






subsection \<open>Batches: a resolved batch has counted every entry that downloads\<close>

lemma batch_outcome_Resolved:
  "(batch_outcome b = Resolved ls) = (bfail b = None \<and> bpending b = 0 \<and> ls = blibs b)"
  by (auto simp: batch_outcome_def split: option.splits)

lemma sync_step_exact:
  assumes "bfail (sync_step net ty tot b t) = None"
  shows "bfail b = None \<and> (\<forall>e. t \<noteq> Throw e)
     \<and> bpending (sync_step net ty tot b t) = bpending b
     \<and> counter (bw (sync_step net ty tot b t)) + length (bstarted (sync_step net ty tot b t))
         = counter (bw b) + length (bstarted b) + (if t = Skip then 0 else 1)"
proof (cases t)
  case Skip
  then show ?thesis using assms by (simp add: sync_step_def)
next
  case (Throw e)
  then show ?thesis using assms by (simp add: sync_step_def)
next
  case (Have p)
  then show ?thesis using assms by (simp add: sync_step_def)
next
  case (Fetch url dir name p)
  have "counter (snd (dl_start net url name (bw b))) = counter (bw b)"
    using quiet_dl_start [of "bw b" net url name] by (simp add: quiet_def)
  then show ?thesis using Fetch assms by (simp add: sync_step_def split_def Let_def)
qed

lemma foldl_sync_exact:
  assumes "bfail (foldl (sync_step net ty tot) b ts) = None"
  shows "bfail b = None \<and> (\<forall>e. Throw e \<notin> set ts)
     \<and> bpending (foldl (sync_step net ty tot) b ts) = bpending b
     \<and> counter (bw (foldl (sync_step net ty tot) b ts))
           + length (bstarted (foldl (sync_step net ty tot) b ts))
         = counter (bw b) + length (bstarted b) + length (filter (\<lambda>t. t \<noteq> Skip) ts)"
  using assms
proof (induction ts arbitrary: b)
  case Nil
  then show ?case by simp
next
  case (Cons t ts)
  have ih: "bfail (sync_step net ty tot b t) = None \<and> (\<forall>e. Throw e \<notin> set ts)
     \<and> bpending (foldl (sync_step net ty tot) (sync_step net ty tot b t) ts)
         = bpending (sync_step net ty tot b t)
     \<and> counter (bw (foldl (sync_step net ty tot) (sync_step net ty tot b t) ts))
           + length (bstarted (foldl (sync_step net ty tot) (sync_step net ty tot b t) ts))
         = counter (bw (sync_step net ty tot b t)) + length (bstarted (sync_step net ty tot b t))
           + length (filter (\<lambda>t. t \<noteq> Skip) ts)"
    using Cons.IH [of "sync_step net ty tot b t"] Cons.prems by simp
  then have st: "bfail b = None \<and> (\<forall>e. t \<noteq> Throw e)
     \<and> bpending (sync_step net ty tot b t) = bpending b
     \<and> counter (bw (sync_step net ty tot b t)) + length (bstarted (sync_step net ty tot b t))
         = counter (bw b) + length (bstarted b) + (if t = Skip then 0 else 1)"
    using sync_step_exact by blast
  show ?case using ih st by auto
qed

lemma async_step_exact:
  assumes "bfail (async_step net ty tot b d) = None" "bpending (async_step net ty tot b d) = 0"
  shows "bfail b = None \<and> bpending b = 0
     \<and> counter (bw (async_step net ty tot b d)) = Suc (counter (bw b))
     \<and> fs (bw (async_step net ty tot b d)) (path_join (fst (snd d)) (fst (snd (snd d)))) \<noteq> None"
proof -
  obtain url dir name p evs where d: "d = (url, dir, name, p, evs)"
    by (cases d) auto
  let ?r = "dl_finish (respawn_retry net url dir name) True dir name evs (bw b)"
  have "quiet (bw b) (snd ?r)"
    by (rule quiet_dl_finish) (rule quiet_respawn)
  then have c: "counter (snd ?r) = counter (bw b)"
    by (simp add: quiet_def)
  show ?thesis
  proof (cases "fst ?r")
    case (Resolved u)
    have "fs (snd ?r) (path_join dir name) \<noteq> None"
    proof (rule dl_finish_resolved_file)
      show "\<And>w. quiet w (respawn_retry net url dir name w)"
        by (rule quiet_respawn)
      show "fst ?r = Resolved ()"
        using Resolved by simp
    qed
    then show ?thesis
      using Resolved assms c by (simp add: async_step_def d split_def Let_def)
  next
    case (Rejected e)
    then show ?thesis using assms by (simp add: async_step_def d split_def Let_def)
  next
    case Pending
    then show ?thesis using assms by (simp add: async_step_def d split_def Let_def)
  qed
qed


lemma foldl_async_exact:
  assumes "bfail (foldl (async_step net ty tot) b ds) = None"
    "bpending (foldl (async_step net ty tot) b ds) = 0"
  shows "bfail b = None \<and> bpending b = 0
     \<and> counter (bw (foldl (async_step net ty tot) b ds)) = counter (bw b) + length ds"
  using assms
proof (induction ds arbitrary: b)
  case Nil
  then show ?case by simp
next
  case (Cons d ds)
  have ih: "bfail (async_step net ty tot b d) = None \<and> bpending (async_step net ty tot b d) = 0
     \<and> counter (bw (foldl (async_step net ty tot) (async_step net ty tot b d) ds))
         = counter (bw (async_step net ty tot b d)) + length ds"
    using Cons.IH [of "async_step net ty tot b d"] Cons.prems by simp
  then have "bfail b = None \<and> bpending b = 0
     \<and> counter (bw (async_step net ty tot b d)) = Suc (counter (bw b))"
    using async_step_exact by blast
  then show ?case using ih by simp
qed

lemma run_batch_exact:
  assumes "batch_outcome (run_batch net prio ty tot ts w) = Resolved ls"
  shows "counter (bw (run_batch net prio ty tot ts w)) = length (filter (\<lambda>t. t \<noteq> Skip) ts)
     \<and> (\<forall>e. Throw e \<notin> set ts)"
proof -
  let ?b0 = "\<lparr>bw = emit (Progress ty 0 tot) (w\<lparr>counter := 0\<rparr>), blibs = [], bfail = None,
                bpending = 0, bstarted = []\<rparr>"
  let ?b1 = "foldl (sync_step net ty tot) ?b0 ts"
  let ?b2 = "foldl (async_step net ty tot) ?b1 (schedule prio (bstarted ?b1))"
  have b2: "run_batch net prio ty tot ts w = ?b2"
    by (simp add: run_batch_def Let_def)
  have r: "bfail ?b2 = None" "bpending ?b2 = 0"
    using assms unfolding b2 batch_outcome_Resolved by simp_all
  have a: "bfail ?b1 = None \<and> bpending ?b1 = 0
     \<and> counter (bw ?b2) = counter (bw ?b1) + length (schedule prio (bstarted ?b1))"
    using r by (rule foldl_async_exact)
  then have s: "(\<forall>e. Throw e \<notin> set ts)
     \<and> counter (bw ?b1) + length (bstarted ?b1)
         = counter (bw ?b0) + length (bstarted ?b0) + length (filter (\<lambda>t. t \<noteq> Skip) ts)"
    using foldl_sync_exact [of net ty tot ?b0 ts] by blast
  show ?thesis
    unfolding b2 using a s by (simp add: emit_def)
qed

subsection \<open>Progress of the two batches\<close>




lemma then_do_Resolved:
  "then_do (Resolved x, w) f = f x w"
  by (simp add: then_do_def)

lemma quiet_read_index: "quiet w (snd (read_index net parse opts ver w))"
proof (cases "v_assetIndex ver")
  case None
  then show ?thesis by (simp add: read_index_def quiet_refl)
next
  case (Some ai)
  let ?ip = "index_path opts ai"
  let ?name = "or_else (ov_assetIndex (opt_overrides opts)) (ai_id ai) @ ''.json''"
  let ?m = "if fs w ?ip = None then
              downloadAsync net (ai_url ai) (dirname ?ip) ?name True
                (emit (Debug ''[VoidBeam]: Downloading asset index'') w)
            else (Resolved (), w)"
  have q: "quiet w (snd ?m)"
    using quiet_trans [OF quiet_emit_debug quiet_downloadAsync] by (simp add: quiet_refl)
  have "snd (read_index net parse opts ver w) = snd ?m"
    using Some
    by (cases "fst ?m") (auto simp: read_index_def Let_def then_do_def split: prod.splits option.splits)
  then show ?thesis using q by simp
qed



subsection \<open>Retry of a download; progress events\<close>

lemma show_nat_404: "show_nat 404 = ''404''"
  by (simp add: show_nat.simps digit_char_def)

text \<open>
  C3, on the code. The handlers of a call with \<open>retry = true\<close> start the retry with the same
  URL, directory and name and \<open>retry = false\<close>, but return its promise to the event emitter:
  the promise the caller holds is settled by the write stream alone
  (\<open>downloadAsync_retry_promise\<close>). When the server answers 404 to the request and to the
  retry, the caller's promise resolves once the body of the first answer is written, and the
  rejection of the retry is unhandled; when there is no connection, the caller's promise
  never settles. In neither case does it reject.
\<close>

theorem downloadAsync_second_failure_not_rejected:
  "fst (downloadAsync net_404 ''http://host/f'' ''/d'' ''f'' True world0) = Resolved ()
   \<and> requests (snd (downloadAsync net_404 ''http://host/f'' ''/d'' ''f'' True world0))
        = [''http://host/f'', ''http://host/f'']
   \<and> unhandled (snd (downloadAsync net_404 ''http://host/f'' ''/d'' ''f'' True world0))
        = [''Download failed: 404'']
   \<and> fs (snd (downloadAsync net_404 ''http://host/f'' ''/d'' ''f'' True world0)) ''/d/f''
        = Some ''Not Found''
   \<and> fst (downloadAsync net_down ''http://host/f'' ''/d'' ''f'' True world0) = Pending
   \<and> requests (snd (downloadAsync net_down ''http://host/f'' ''/d'' ''f'' True world0))
        = [''http://host/f'', ''http://host/f'']
   \<and> unhandled (snd (downloadAsync net_down ''http://host/f'' ''/d'' ''f'' True world0))
        = [''ECONNREFUSED'']"
  by (simp add: downloadAsync_def dl_start_def dl_finish_def on_event_def respawn_retry_def
      downloadAsync_noretry_def net_404_def http_def net_down_def transport_error_def
      world0_def emit_def settle_def attempt_no_def path_join_def show_nat_404 Let_def)





subsection \<open>Batches: the files of a resolved batch exist\<close>

lemma path_join_dirname_basename:
  assumes "CHR ''/'' \<in> set q"
  shows "path_join (dirname q) (basename q) = q"
proof -
  let ?P = "\<lambda>c. c \<noteq> CHR ''/''"
  let ?r = "rev q"
  have "dropWhile ?P ?r \<noteq> []"
    using assms by (simp add: dropWhile_eq_Nil_conv)
  moreover have "hd (dropWhile ?P ?r) = CHR ''/''"
    using hd_dropWhile [of ?P ?r] calculation by blast
  ultimately have dw: "dropWhile ?P ?r = CHR ''/'' # tl (dropWhile ?P ?r)"
    by (metis list.collapse)
  have "path_join (dirname q) (basename q)
      = rev (tl (dropWhile ?P ?r)) @ [CHR ''/''] @ rev (takeWhile ?P ?r)"
    using assms by (simp add: path_join_def dirname_def basename_def)
  also have "\<dots> = rev (CHR ''/'' # tl (dropWhile ?P ?r)) @ rev (takeWhile ?P ?r)"
    by simp
  also have "\<dots> = rev (dropWhile ?P ?r) @ rev (takeWhile ?P ?r)"
    using dw by simp
  also have "\<dots> = rev (takeWhile ?P ?r @ dropWhile ?P ?r)"
    by (simp only: rev_append)
  also have "\<dots> = rev ?r"
    by (simp only: takeWhile_dropWhile_id)
  also have "\<dots> = q"
    by simp
  finally show ?thesis .
qed

lemma lib_task_ok: "task_ok files (lib_task files directory lib)"
proof -
  have "path_join (dirname (path_join directory p)) (basename (path_join directory p))
      = path_join directory p" for p
    by (rule path_join_dirname_basename) (simp add: path_join_def)
  then show ?thesis
    by (simp add: lib_task_def Let_def split: option.splits)
qed

lemma asset_task_ok: "task_ok files (asset_task files d r a)"
  by (simp add: asset_task_def Let_def)

text \<open>Files are never deleted.\<close>

lemma quiet_keeps_file: "quiet w w' \<Longrightarrow> fs w p \<noteq> None \<Longrightarrow> fs w' p \<noteq> None"
  by (simp add: quiet_def)

lemma sync_step_keeps_file:
  assumes "fs (bw b) p \<noteq> None"
  shows "fs (bw (sync_step net ty tot b t)) p \<noteq> None"
proof (cases t)
  case (Fetch url dir name q)
  have "fs (snd (dl_start net url name (bw b))) p \<noteq> None"
    using quiet_dl_start assms by (rule quiet_keeps_file)
  then show ?thesis using Fetch by (simp add: sync_step_def split_def Let_def)
qed (simp_all add: sync_step_def assms)

lemma async_step_keeps_file:
  assumes "fs (bw b) p \<noteq> None"
  shows "fs (bw (async_step net ty tot b d)) p \<noteq> None"
proof -
  obtain url dir name q evs where d: "d = (url, dir, name, q, evs)"
    by (cases d) auto
  let ?r = "dl_finish (respawn_retry net url dir name) True dir name evs (bw b)"
  have "quiet (bw b) (snd ?r)"
    by (rule quiet_dl_finish) (rule quiet_respawn)
  then have "fs (snd ?r) p \<noteq> None"
    using assms by (rule quiet_keeps_file)
  then show ?thesis
    by (cases "fst ?r") (simp_all add: async_step_def d split_def Let_def)
qed

lemma foldl_sync_keeps_file:
  "fs (bw b) p \<noteq> None \<Longrightarrow> fs (bw (foldl (sync_step net ty tot) b ts)) p \<noteq> None"
proof (induction ts arbitrary: b)
  case Nil
  then show ?case by simp
next
  case (Cons t ts)
  show ?case
    using Cons.IH [OF sync_step_keeps_file [OF Cons.prems]] by simp
qed

lemma foldl_async_keeps_file:
  "fs (bw b) p \<noteq> None \<Longrightarrow> fs (bw (foldl (async_step net ty tot) b ds)) p \<noteq> None"
proof (induction ds arbitrary: b)
  case Nil
  then show ?case by simp
next
  case (Cons d ds)
  show ?case
    using Cons.IH [OF async_step_keeps_file [OF Cons.prems]] by simp
qed

text \<open>Every download that a task starts is among the started ones.\<close>

lemma sync_step_started_mono:
  "set (bstarted b) \<subseteq> set (bstarted (sync_step net ty tot b t))"
  by (cases t) (auto simp: sync_step_def split_def Let_def)

lemma foldl_sync_started_mono:
  "set (bstarted b) \<subseteq> set (bstarted (foldl (sync_step net ty tot) b ts))"
proof (induction ts arbitrary: b)
  case Nil
  show ?case by simp
next
  case (Cons t ts)
  show ?case
    using sync_step_started_mono [of b net ty tot t] Cons.IH [of "sync_step net ty tot b t"]
    by auto
qed

lemma foldl_sync_started:
  assumes "Fetch url dir name p \<in> set ts"
  shows "\<exists>evs. (url, dir, name, p, evs) \<in> set (bstarted (foldl (sync_step net ty tot) b ts))"
  using assms
proof (induction ts arbitrary: b)
  case Nil
  then show ?case by simp
next
  case (Cons t ts)
  show ?case
  proof (cases "t = Fetch url dir name p")
    case True
    then have "\<exists>evs. (url, dir, name, p, evs) \<in> set (bstarted (sync_step net ty tot b t))"
      by (auto simp: sync_step_def split_def Let_def)
    then show ?thesis
      using foldl_sync_started_mono [of "sync_step net ty tot b t" net ty tot ts] by auto
  next
    case False
    then have "Fetch url dir name p \<in> set ts"
      using Cons.prems by simp
    then show ?thesis
      using Cons.IH [of "sync_step net ty tot b t"] by simp
  qed
qed

lemma foldl_async_files:
  assumes "bfail (foldl (async_step net ty tot) b ds) = None"
    "bpending (foldl (async_step net ty tot) b ds) = 0"
    and "(url, dir, name, p, evs) \<in> set ds"
  shows "fs (bw (foldl (async_step net ty tot) b ds)) (path_join dir name) \<noteq> None"
  using assms
proof (induction ds arbitrary: b)
  case Nil
  then show ?case by simp
next
  case (Cons d ds)
  let ?b1 = "async_step net ty tot b d"
  have fin: "bfail (foldl (async_step net ty tot) ?b1 ds) = None"
    "bpending (foldl (async_step net ty tot) ?b1 ds) = 0"
    using Cons.prems by simp_all
  show ?case
  proof (cases "d = (url, dir, name, p, evs)")
    case True
    have "bfail ?b1 = None \<and> bpending ?b1 = 0"
      using foldl_async_exact [OF fin] by simp
    then have "fs (bw ?b1) (path_join dir name) \<noteq> None"
      using async_step_exact [of net ty tot b d] True by simp
    then show ?thesis
      using foldl_async_keeps_file by simp
  next
    case False
    then have "(url, dir, name, p, evs) \<in> set ds"
      using Cons.prems by simp
    then show ?thesis
      using Cons.IH [OF fin] by simp
  qed
qed

subsection \<open>Batches that find every file\<close>

lemma run_batch_files:
  assumes res: "batch_outcome (run_batch net prio ty tot ts w) = Resolved ls"
    and t: "t \<in> set ts" "task_ok (fs w) t" "task_file t = Some p"
  shows "fs (bw (run_batch net prio ty tot ts w)) p \<noteq> None"
proof -
  let ?b0 = "\<lparr>bw = emit (Progress ty 0 tot) (w\<lparr>counter := 0\<rparr>), blibs = [], bfail = None,
                bpending = 0, bstarted = []\<rparr>"
  let ?b1 = "foldl (sync_step net ty tot) ?b0 ts"
  let ?b2 = "foldl (async_step net ty tot) ?b1 (schedule prio (bstarted ?b1))"
  have b2: "run_batch net prio ty tot ts w = ?b2"
    by (simp add: run_batch_def Let_def)
  have r: "bfail ?b2 = None" "bpending ?b2 = 0"
    using res unfolding b2 batch_outcome_Resolved by simp_all
  show ?thesis
  proof (cases t)
    case (Have q)
    then have "fs (bw ?b0) p \<noteq> None"
      using t by (simp add: emit_def)
    then have "fs (bw ?b1) p \<noteq> None"
      by (rule foldl_sync_keeps_file)
    then have "fs (bw ?b2) p \<noteq> None"
      by (rule foldl_async_keeps_file)
    then show ?thesis unfolding b2 .
  next
    case (Fetch url dir name q)
    then have q: "q = p" "path_join dir name = p"
      using t by simp_all
    obtain evs where "(url, dir, name, p, evs) \<in> set (bstarted ?b1)"
      using foldl_sync_started [of url dir name p ts net ty tot ?b0] t(1) Fetch q by blast
    then have "(url, dir, name, p, evs) \<in> set (schedule prio (bstarted ?b1))"
      by simp
    then have "fs (bw ?b2) (path_join dir name) \<noteq> None"
      using foldl_async_files [OF r] by blast
    then show ?thesis unfolding b2 using q by simp
  next
    case Skip
    then show ?thesis using t by simp
  next
    case (Throw e)
    then show ?thesis using t by simp
  qed
qed

lemma sync_step_no_fetch:
  assumes "no_fetch t"
  shows "requests (bw (sync_step net ty tot b t)) = requests (bw b)
     \<and> fs (bw (sync_step net ty tot b t)) = fs (bw b)
     \<and> bstarted (sync_step net ty tot b t) = bstarted b
     \<and> bfail (sync_step net ty tot b t) = bfail b
     \<and> bpending (sync_step net ty tot b t) = bpending b"
  using assms by (cases t) (simp_all add: sync_step_def)

lemma foldl_sync_no_fetch:
  assumes "list_all no_fetch ts"
  shows "requests (bw (foldl (sync_step net ty tot) b ts)) = requests (bw b)
     \<and> fs (bw (foldl (sync_step net ty tot) b ts)) = fs (bw b)
     \<and> bstarted (foldl (sync_step net ty tot) b ts) = bstarted b
     \<and> bfail (foldl (sync_step net ty tot) b ts) = bfail b
     \<and> bpending (foldl (sync_step net ty tot) b ts) = bpending b"
  using assms
proof (induction ts arbitrary: b)
  case Nil
  show ?case by simp
next
  case (Cons t ts)
  have "no_fetch t" "list_all no_fetch ts"
    using Cons.prems by simp_all
  then show ?case
    using Cons.IH [of "sync_step net ty tot b t"] sync_step_no_fetch [of t net ty tot b]
    by simp
qed

lemma schedule_Nil [simp]: "schedule prio [] = []"
  by (simp add: schedule_def)

lemma run_batch_no_fetch:
  assumes "list_all no_fetch ts"
  shows "requests (bw (run_batch net prio ty tot ts w)) = requests w
     \<and> fs (bw (run_batch net prio ty tot ts w)) = fs w
     \<and> (\<exists>ls. batch_outcome (run_batch net prio ty tot ts w) = Resolved ls)"
proof -
  let ?b0 = "\<lparr>bw = emit (Progress ty 0 tot) (w\<lparr>counter := 0\<rparr>), blibs = [], bfail = None,
                bpending = 0, bstarted = []\<rparr>"
  let ?b1 = "foldl (sync_step net ty tot) ?b0 ts"
  have s: "requests (bw ?b1) = requests (bw ?b0) \<and> fs (bw ?b1) = fs (bw ?b0)
     \<and> bstarted ?b1 = bstarted ?b0 \<and> bfail ?b1 = bfail ?b0 \<and> bpending ?b1 = bpending ?b0"
    using assms by (rule foldl_sync_no_fetch)
  then have "run_batch net prio ty tot ts w = ?b1"
    by (simp add: run_batch_def Let_def)
  then show ?thesis
    using s by (simp add: batch_outcome_def emit_def)
qed

subsection \<open>A second run of a batch; what a download leaves alone\<close>

lemma lib_task_second_run:
  assumes "\<forall>e. lib_task files directory lib \<noteq> Throw e"
    and "\<forall>p. task_file (lib_task files directory lib) = Some p \<longrightarrow> files' p \<noteq> None"
  shows "no_fetch (lib_task files' directory lib)"
  using assms
  by (auto simp: lib_task_def Let_def split: option.splits if_splits)

lemma asset_task_second_run:
  assumes "\<forall>p. task_file (asset_task files d r a) = Some p \<longrightarrow> files' p \<noteq> None"
  shows "no_fetch (asset_task files' d r a)"
  using assms
  by (auto simp: asset_task_def Let_def split: if_splits)

lemma downloadToDirectory_second_run:
  assumes "fst (downloadToDirectory net prio directory libraries eventName w) = Resolved ls"
  shows "requests (snd (downloadToDirectory net' prio' directory libraries eventName
             (snd (downloadToDirectory net prio directory libraries eventName w))))
           = requests (snd (downloadToDirectory net prio directory libraries eventName w))
     \<and> fs (snd (downloadToDirectory net' prio' directory libraries eventName
             (snd (downloadToDirectory net prio directory libraries eventName w))))
           = fs (snd (downloadToDirectory net prio directory libraries eventName w))
     \<and> (\<exists>ls'. fst (downloadToDirectory net' prio' directory libraries eventName
             (snd (downloadToDirectory net prio directory libraries eventName w))) = Resolved ls')"
proof -
  let ?ts = "map (lib_task (fs w) directory) libraries"
  let ?b = "run_batch net prio eventName (length libraries) ?ts w"
  let ?w1 = "bw ?b"
  have w1: "snd (downloadToDirectory net prio directory libraries eventName w) = ?w1"
    by (simp add: downloadToDirectory_def Let_def)
  have res: "batch_outcome ?b = Resolved ls"
    using assms by (simp add: downloadToDirectory_def Let_def)
  have nothrow: "\<forall>e. Throw e \<notin> set ?ts"
    using run_batch_exact [OF res] by simp
  have "no_fetch (lib_task (fs ?w1) directory lib)" if "lib \<in> set libraries" for lib
  proof (rule lib_task_second_run)
    have mem: "lib_task (fs w) directory lib \<in> set ?ts"
      using that by simp
    show "\<forall>e. lib_task (fs w) directory lib \<noteq> Throw e"
      using nothrow mem by metis
    show "\<forall>p. task_file (lib_task (fs w) directory lib) = Some p \<longrightarrow> fs ?w1 p \<noteq> None"
    proof (intro allI impI)
      fix p
      assume "task_file (lib_task (fs w) directory lib) = Some p"
      then show "fs ?w1 p \<noteq> None"
        using run_batch_files [OF res, of "lib_task (fs w) directory lib" p] that lib_task_ok
        by simp
    qed
  qed
  then have "list_all no_fetch (map (lib_task (fs ?w1) directory) libraries)"
    by (simp add: list_all_iff)
  then show ?thesis
    unfolding w1
    using run_batch_no_fetch [of "map (lib_task (fs ?w1) directory) libraries" net' prio' eventName
        "length libraries" ?w1]
    by (simp add: downloadToDirectory_def Let_def)
qed

text \<open>A download writes its own destination only.\<close>

lemma on_event_frame:
  assumes "\<And>w. fs (respawn w) q = fs w q" "q \<noteq> path"
  shows "fs (snd (on_event respawn retry name path pw ev)) q = fs (snd pw) q"
  using assms by (cases ev) (simp_all add: on_event_def Let_def emit_def)

lemma foldl_on_event_frame:
  assumes "\<And>w. fs (respawn w) q = fs w q" "q \<noteq> path"
  shows "fs (snd (foldl (on_event respawn retry name path) pw evs)) q = fs (snd pw) q"
proof (induction evs arbitrary: pw)
  case Nil
  show ?case by simp
next
  case (Cons ev evs)
  show ?case
    using Cons.IH [of "on_event respawn retry name path pw ev"]
      on_event_frame [OF assms, of retry name pw ev]
    by simp
qed

lemma dl_finish_frame:
  assumes "\<And>w. fs (respawn w) q = fs w q" "q \<noteq> path_join dir name"
  shows "fs (snd (dl_finish respawn retry dir name evs w)) q = fs w q"
  using foldl_on_event_frame [OF assms, of retry name "(Pending, w)" evs]
  by (simp add: dl_finish_def)

lemma respawn_retry_frame:
  assumes "q \<noteq> path_join dir name"
  shows "fs (respawn_retry net url dir name w) q = fs w q"
proof -
  have "fs (snd (downloadAsync_noretry net url dir name w)) q = fs w q"
    using dl_finish_frame [of id q dir name False] assms
    by (simp add: downloadAsync_noretry_def dl_start_def emit_def Let_def)
  then show ?thesis
    by (auto simp: respawn_retry_def split: prod.splits outcome.splits)
qed

lemma async_step_frame:
  assumes "q \<noteq> path_join (fst (snd d)) (fst (snd (snd d)))"
  shows "fs (bw (async_step net ty tot b d)) q = fs (bw b) q"
proof -
  obtain url dir name p evs where d: "d = (url, dir, name, p, evs)"
    by (cases d) auto
  let ?r = "dl_finish (respawn_retry net url dir name) True dir name evs (bw b)"
  have "fs (snd ?r) q = fs (bw b) q"
  proof (rule dl_finish_frame)
    show "\<And>w. fs (respawn_retry net url dir name w) q = fs w q"
      using assms d by (simp add: respawn_retry_frame)
    show "q \<noteq> path_join dir name"
      using assms d by simp
  qed
  then show ?thesis
    by (cases "fst ?r") (simp_all add: async_step_def d split_def Let_def)
qed

lemma foldl_async_frame:
  assumes "\<forall>d \<in> set ds. q \<noteq> path_join (fst (snd d)) (fst (snd (snd d)))"
  shows "fs (bw (foldl (async_step net ty tot) b ds)) q = fs (bw b) q"
  using assms
proof (induction ds arbitrary: b)
  case Nil
  show ?case by simp
next
  case (Cons d ds)
  show ?case
    using Cons.IH [of "async_step net ty tot b d"] Cons.prems
      async_step_frame [of q d net ty tot b]
    by simp
qed

lemma sync_step_fs: "fs (bw (sync_step net ty tot b t)) = fs (bw b)"
  by (cases t) (simp_all add: sync_step_def dl_start_def emit_def Let_def)

lemma foldl_sync_fs: "fs (bw (foldl (sync_step net ty tot) b ts)) = fs (bw b)"
  by (induction ts arbitrary: b) (simp_all add: sync_step_fs)

lemma sync_step_started_from:
  assumes "d \<in> set (bstarted (sync_step net ty tot b t))"
  shows "d \<in> set (bstarted b)
     \<or> t = Fetch (fst d) (fst (snd d)) (fst (snd (snd d))) (fst (snd (snd (snd d))))"
  using assms by (cases t) (auto simp: sync_step_def split_def Let_def)

lemma foldl_sync_started_from:
  assumes "d \<in> set (bstarted (foldl (sync_step net ty tot) b ts))"
  shows "d \<in> set (bstarted b)
     \<or> Fetch (fst d) (fst (snd d)) (fst (snd (snd d))) (fst (snd (snd (snd d)))) \<in> set ts"
  using assms
proof (induction ts arbitrary: b)
  case Nil
  then show ?case by simp
next
  case (Cons t ts)
  then show ?case
    using Cons.IH [of "sync_step net ty tot b t"] sync_step_started_from [of d net ty tot b t]
    by auto
qed

lemma run_batch_frame:
  assumes ok: "\<forall>t \<in> set ts. task_ok (fs w) t"
    and q: "\<forall>t \<in> set ts. task_file t \<noteq> Some q"
  shows "fs (bw (run_batch net prio ty tot ts w)) q = fs w q"
proof -
  let ?b0 = "\<lparr>bw = emit (Progress ty 0 tot) (w\<lparr>counter := 0\<rparr>), blibs = [], bfail = None,
                bpending = 0, bstarted = []\<rparr>"
  let ?b1 = "foldl (sync_step net ty tot) ?b0 ts"
  have "q \<noteq> path_join (fst (snd d)) (fst (snd (snd d)))"
    if "d \<in> set (schedule prio (bstarted ?b1))" for d
  proof -
    have "Fetch (fst d) (fst (snd d)) (fst (snd (snd d))) (fst (snd (snd (snd d)))) \<in> set ts"
      using foldl_sync_started_from [of d net ty tot ?b0 ts] that by simp
    then show ?thesis
      using ok q by fastforce
  qed
  then have "fs (bw (foldl (async_step net ty tot) ?b1 (schedule prio (bstarted ?b1)))) q
      = fs (bw ?b1) q"
    using foldl_async_frame by blast
  then show ?thesis
    by (simp add: run_batch_def Let_def foldl_sync_fs emit_def)
qed

subsection \<open>The asset index\<close>

lemma asset_task_file:
  "task_file (asset_task files d r a) = Some (asset_path d (snd a))"
  by (simp add: asset_task_def asset_path_def Let_def)

lemma index_not_asset: "index_path opts ai \<noteq> asset_path (asset_directory opts) h"
  by (simp add: index_path_def asset_path_def path_join_def)

lemma read_index_Resolved:
  assumes "fst (read_index net parse opts ver w) = Resolved objects"
  shows "\<exists>ai content. v_assetIndex ver = Some ai
     \<and> fs (snd (read_index net parse opts ver w)) (index_path opts ai) = Some content
     \<and> parse content = Some objects"
proof (cases "v_assetIndex ver")
  case None
  then show ?thesis using assms by (simp add: read_index_def)
next
  case (Some ai)
  let ?ip = "index_path opts ai"
  let ?m = "if fs w ?ip = None then
              downloadAsync net (ai_url ai) (dirname ?ip)
                (or_else (ov_assetIndex (opt_overrides opts)) (ai_id ai) @ ''.json'') True
                (emit (Debug ''[VoidBeam]: Downloading asset index'') w)
            else (Resolved (), w)"
  have ri: "read_index net parse opts ver w
      = then_do ?m (\<lambda>u w1. case fs w1 ?ip of
                  None \<Rightarrow> (Rejected ''ENOENT'', w1)
                | Some content \<Rightarrow>
                    (case parse content of
                       None \<Rightarrow> (Rejected ''SyntaxError'', w1)
                     | Some objects \<Rightarrow> (Resolved objects, w1)))"
    using Some by (simp add: read_index_def Let_def)
  obtain r wm where m: "?m = (r, wm)"
    by (cases ?m) blast
  have wm: "snd (read_index net parse opts ver w) = wm"
    unfolding ri m by (cases r) (simp_all add: then_do_def split: option.splits)
  show ?thesis
    using assms unfolding wm unfolding ri m
    by (cases r) (auto simp: Some then_do_def split: option.splits)
qed

lemma read_index_present:
  assumes "v_assetIndex ver = Some ai" "fs w (index_path opts ai) = Some content"
    "parse content = Some objects"
  shows "read_index net parse opts ver w = (Resolved objects, w)"
  using assms by (simp add: read_index_def Let_def then_do_def)

subsection \<open>A second run of getAssets\<close>

lemma getAssets_second_run:
  assumes "fst (getAssets net prio parse opts ver w) = Resolved ()"
  shows "requests (snd (getAssets net' prio' parse opts ver (snd (getAssets net prio parse opts ver w))))
           = requests (snd (getAssets net prio parse opts ver w))
     \<and> fs (snd (getAssets net' prio' parse opts ver (snd (getAssets net prio parse opts ver w))))
           = fs (snd (getAssets net prio parse opts ver w))
     \<and> fst (getAssets net' prio' parse opts ver (snd (getAssets net prio parse opts ver w)))
           = Resolved ()"
proof -
  let ?ri = "read_index net parse opts ver w"
  obtain r wa where ri: "?ri = (r, wa)"
    by (cases ?ri) blast
  obtain objects where r: "r = Resolved objects"
    using assms unfolding getAssets_def ri by (cases r) (simp_all add: then_do_def)
  obtain ai content where ix: "v_assetIndex ver = Some ai"
    "fs wa (index_path opts ai) = Some content" "parse content = Some objects"
    using read_index_Resolved [of net parse opts ver w objects] ri r by auto
  let ?ts = "map (asset_task (fs wa) (asset_directory opts) (resource_url opts)) objects"
  let ?b = "assets_batch net prio opts objects wa"
  have b: "?b = run_batch net prio ''assets'' (length objects) ?ts wa"
    by (simp add: assets_batch_def)
  obtain ls where res: "batch_outcome ?b = Resolved ls"
    using assms unfolding getAssets_def ri r
    by (cases "batch_outcome ?b") (simp_all add: then_do_def)
  let ?w1 = "emit (Debug ''[VoidBeam]: Downloaded assets'') ((bw ?b)\<lparr>counter := 0\<rparr>)"
  have w1: "snd (getAssets net prio parse opts ver w) = ?w1"
    unfolding getAssets_def ri r using res by (simp add: then_do_def)
  have fs1: "fs ?w1 = fs (bw ?b)" and rq1: "requests ?w1 = requests (bw ?b)"
    by (simp_all add: emit_def)
  have "fs (bw ?b) (index_path opts ai) = fs wa (index_path opts ai)"
    unfolding b
    by (rule run_batch_frame) (simp_all add: asset_task_ok asset_task_file index_not_asset [symmetric])
  then have f1: "fs ?w1 (index_path opts ai) = Some content"
    using ix(2) fs1 by simp
  have ri2: "read_index net' parse opts ver ?w1 = (Resolved objects, ?w1)"
    by (rule read_index_present [where parse = parse and content = content, OF ix(1) f1 ix(3)])
  let ?ts2 = "map (asset_task (fs ?w1) (asset_directory opts) (resource_url opts)) objects"
  have "no_fetch (asset_task (fs ?w1) (asset_directory opts) (resource_url opts) a)"
    if "a \<in> set objects" for a
  proof (rule asset_task_second_run, intro allI impI)
    fix p
    assume p: "task_file (asset_task (fs wa) (asset_directory opts) (resource_url opts) a) = Some p"
    have "fs (bw (run_batch net prio ''assets'' (length objects) ?ts wa)) p \<noteq> None"
      using res unfolding b
    proof (rule run_batch_files)
      show "asset_task (fs wa) (asset_directory opts) (resource_url opts) a \<in> set ?ts"
        using that by simp
      show "task_ok (fs wa) (asset_task (fs wa) (asset_directory opts) (resource_url opts) a)"
        by (rule asset_task_ok)
      show "task_file (asset_task (fs wa) (asset_directory opts) (resource_url opts) a) = Some p"
        by (rule p)
    qed
    then show "fs ?w1 p \<noteq> None"
      using fs1 b by simp
  qed
  then have nf: "list_all no_fetch ?ts2"
    by (simp add: list_all_iff)
  let ?b2 = "assets_batch net' prio' opts objects ?w1"
  have b2eq: "?b2 = run_batch net' prio' ''assets'' (length objects) ?ts2 ?w1"
    by (rule assets_batch_def)
  have b2: "requests (bw ?b2) = requests ?w1 \<and> fs (bw ?b2) = fs ?w1
      \<and> (\<exists>ls. batch_outcome ?b2 = Resolved ls)"
    unfolding b2eq using nf by (rule run_batch_no_fetch)
  then obtain ls2 where res2: "batch_outcome ?b2 = Resolved ls2"
    by blast
  have g2: "getAssets net' prio' parse opts ver ?w1
      = (Resolved (), emit (Debug ''[VoidBeam]: Downloaded assets'') ((bw ?b2)\<lparr>counter := 0\<rparr>))"
    unfolding getAssets_def ri2 using res2 by (simp add: then_do_def)
  show ?thesis
    unfolding w1 g2 using b2 by (simp add: emit_def)
qed

subsection \<open>Idempotence of the download pipeline\<close>

text \<open>
  C4. A batch skips every entry whose destination exists and looks at nothing else of the
  file (\<open>lib_task\<close>, and \<open>asset_task\<close> at the path made from the hash). When a run of
  \<open>downloadToDirectory\<close> or of \<open>getAssets\<close> has resolved, a second run with the same
  inputs on the files the first run left makes no request, whatever the network would answer
  and in whatever order downloads would finish, leaves every file as it is, and resolves.
\<close>

theorem download_pipeline_idempotent:
  "(fst (downloadToDirectory net prio directory libraries eventName w) = Resolved ls \<longrightarrow>
      fetches (snd (downloadToDirectory net prio directory libraries eventName w))
        (snd (downloadToDirectory net' prio' directory libraries eventName
           (snd (downloadToDirectory net prio directory libraries eventName w)))) = 0
      \<and> requests (snd (downloadToDirectory net' prio' directory libraries eventName
           (snd (downloadToDirectory net prio directory libraries eventName w))))
         = requests (snd (downloadToDirectory net prio directory libraries eventName w))
      \<and> fs (snd (downloadToDirectory net' prio' directory libraries eventName
           (snd (downloadToDirectory net prio directory libraries eventName w))))
         = fs (snd (downloadToDirectory net prio directory libraries eventName w))
      \<and> (\<exists>ls'. fst (downloadToDirectory net' prio' directory libraries eventName
           (snd (downloadToDirectory net prio directory libraries eventName w))) = Resolved ls'))
   \<and> (fst (getAssets net prio parse opts ver w) = Resolved () \<longrightarrow>
      fetches (snd (getAssets net prio parse opts ver w))
        (snd (getAssets net' prio' parse opts ver (snd (getAssets net prio parse opts ver w)))) = 0
      \<and> requests (snd (getAssets net' prio' parse opts ver (snd (getAssets net prio parse opts ver w))))
         = requests (snd (getAssets net prio parse opts ver w))
      \<and> fs (snd (getAssets net' prio' parse opts ver (snd (getAssets net prio parse opts ver w))))
         = fs (snd (getAssets net prio parse opts ver w))
      \<and> fst (getAssets net' prio' parse opts ver (snd (getAssets net prio parse opts ver w)))
         = Resolved ())"
proof (intro conjI impI)
  assume a: "fst (downloadToDirectory net prio directory libraries eventName w) = Resolved ls"
  note d = downloadToDirectory_second_run [OF a, of net' prio']
  show "requests (snd (downloadToDirectory net' prio' directory libraries eventName
           (snd (downloadToDirectory net prio directory libraries eventName w))))
         = requests (snd (downloadToDirectory net prio directory libraries eventName w))"
    using d by blast
  then show "fetches (snd (downloadToDirectory net prio directory libraries eventName w))
        (snd (downloadToDirectory net' prio' directory libraries eventName
           (snd (downloadToDirectory net prio directory libraries eventName w)))) = 0"
    by (simp add: fetches_def)
  show "fs (snd (downloadToDirectory net' prio' directory libraries eventName
           (snd (downloadToDirectory net prio directory libraries eventName w))))
         = fs (snd (downloadToDirectory net prio directory libraries eventName w))"
    using d by blast
  show "\<exists>ls'. fst (downloadToDirectory net' prio' directory libraries eventName
           (snd (downloadToDirectory net prio directory libraries eventName w))) = Resolved ls'"
    using d by blast
next
  assume a: "fst (getAssets net prio parse opts ver w) = Resolved ()"
  note g = getAssets_second_run [OF a, of net' prio']
  show "requests (snd (getAssets net' prio' parse opts ver (snd (getAssets net prio parse opts ver w))))
         = requests (snd (getAssets net prio parse opts ver w))"
    using g by blast
  then show "fetches (snd (getAssets net prio parse opts ver w))
        (snd (getAssets net' prio' parse opts ver (snd (getAssets net prio parse opts ver w)))) = 0"
    by (simp add: fetches_def)
  show "fs (snd (getAssets net' prio' parse opts ver (snd (getAssets net prio parse opts ver w))))
         = fs (snd (getAssets net prio parse opts ver w))"
    using g by blast
  show "fst (getAssets net' prio' parse opts ver (snd (getAssets net prio parse opts ver w)))
         = Resolved ()"
    using g by blast
qed

lemma getAssets_example:
  "fst (getAssets net_ok id parse_one options_1_20 version_1_20 world0) = Resolved ()
   \<and> requests (snd (getAssets net_ok id parse_one options_1_20 version_1_20 world0))
      = [''https://meta/5.json'',
         ''https://resources.download.minecraft.net/bd/bdf48ef6'']"
  by (simp add: getAssets_def read_index_def assets_batch_def run_batch_def asset_task_def
      options_1_20_def version_1_20_def no_overrides_def parse_one_def index_path_def
      asset_directory_def resource_url_def or_else_def then_do_def downloadAsync_def
      sync_step_def async_step_def schedule_def batch_outcome_def world0_def emit_def
      Let_def dl_start_def dl_finish_def on_event_def net_ok_def http_def settle_def complete_def
      path_join_def dirname_def basename_def attempt_no_def)

theorem download_pipeline_idempotent_witness:
  "fst (downloadToDirectory net_ok id ''/r/libraries''
          [lib_of ''a/a.jar'' ''http://a'', lib_of ''b/b.jar'' ''http://b''] ''classes'' world0)
      = Resolved [''/r/libraries/a/a.jar'', ''/r/libraries/b/b.jar'']
   \<and> fetches (snd (downloadToDirectory net_ok id ''/r/libraries''
          [lib_of ''a/a.jar'' ''http://a'', lib_of ''b/b.jar'' ''http://b''] ''classes'' world0))
        (snd (downloadToDirectory net_down id ''/r/libraries''
          [lib_of ''a/a.jar'' ''http://a'', lib_of ''b/b.jar'' ''http://b''] ''classes''
          (snd (downloadToDirectory net_ok id ''/r/libraries''
             [lib_of ''a/a.jar'' ''http://a'', lib_of ''b/b.jar'' ''http://b''] ''classes'' world0)))) = 0
   \<and> fst (getAssets net_ok id parse_one options_1_20 version_1_20 world0) = Resolved ()
   \<and> fetches (snd (getAssets net_ok id parse_one options_1_20 version_1_20 world0))
        (snd (getAssets net_down id parse_one options_1_20 version_1_20
           (snd (getAssets net_ok id parse_one options_1_20 version_1_20 world0)))) = 0"
proof -
  let ?libs = "[lib_of ''a/a.jar'' ''http://a'', lib_of ''b/b.jar'' ''http://b'']"
  have r: "fst (downloadToDirectory net_ok id ''/r/libraries'' ?libs ''classes'' world0)
      = Resolved [''/r/libraries/a/a.jar'', ''/r/libraries/b/b.jar'']"
    by (simp add: downloadToDirectory_def run_batch_def lib_task_def lib_download_obj_def
      lib_of_def sync_step_def async_step_def schedule_def batch_outcome_def world0_def emit_def
      Let_def dl_start_def dl_finish_def on_event_def net_ok_def http_def settle_def complete_def
      path_join_def dirname_def basename_def attempt_no_def)
  have g: "fst (getAssets net_ok id parse_one options_1_20 version_1_20 world0) = Resolved ()"
    using getAssets_example by blast
  show ?thesis
    using r g
      download_pipeline_idempotent [where net = net_ok and prio = id
        and directory = "''/r/libraries''" and libraries = ?libs and eventName = "''classes''"
        and w = world0 and ls = "[''/r/libraries/a/a.jar'', ''/r/libraries/b/b.jar'']"
        and net' = net_down and prio' = id and parse = parse_one and opts = options_1_20
        and ver = version_1_20]
    by blast
qed

subsection \<open>The log4j block\<close>












subsection \<open>The libraries a resolved batch returns\<close>











subsection \<open>The arguments of the spawned process\<close>








subsection \<open>The class path of a launch\<close>

lemmas launch_eval_defs = launch_def launch_version_def launch_jar_def launch_jvm_def
  launch_cp_def launch_assets_def launch_args_def launch_spawn_def
  catch_close_def printVersion_def
  createRootDirectory_def version_directory_def env_ok_def options_1_20_def version_1_20_def
  options_classes_def
  no_overrides_def world_with_def world0_def steve_def steve_no_meta_def default_meta_def
  net_ok_def net_no_jar_def net_down_def http_def transport_error_def
  getOS_def jar_path_def or_else_def path_join_def path_resolve_def then_do_def
  getJar_def downloadAsync_def dl_start_def dl_finish_def on_event_def respawn_retry_def
  downloadAsync_noretry_def settle_def attempt_no_def emit_def dirname_def basename_def
  memory_flags_def getMemory_def js_isNaN_def toNumber_def decimal_def is_digit_def template_def
  jvm_flags_def os_flag_def getJVM_def
  log4j_patch_def log4j_config_def log4j_lookups_def minor_version_def patch_version_def
  nth_opt_def parseInt_def parse_digits_def dec_digit_def digit_val_def is_space_def nan_lt_def
  nan_eq_def nan_falsy_def nan_gt_def nan_ge_def
  launch_classes_def getClasses_def cleanUp_def library_directory_def class_libraries_def
  has_artifact_def parseRule_def downloadToDirectory_def run_batch_def lib_task_def
  lib_download_obj_def lib_of_def sync_step_def async_step_def schedule_def batch_outcome_def
  complete_def classPaths_def class_path_token_def separator_def runtime_jar_def
  getAssets_def read_index_def assets_batch_def asset_task_def parse_one_def index_path_def
  asset_directory_def resource_url_def
  getLaunchOptions_def initial_args_def assets_index_name_def fields_table_def window_size_def
  window_args_def is_token_def subst_def asset_root_path_def isLegacy_def
  startMinecraft_def show_arg_def show_nat_404 Let_def





subsection \<open>The identity object of the caller\<close>

lemma quiet_store: "quiet w w' \<Longrightarrow> store w' = store w"
  by (simp add: quiet_def)

lemma then_do_store:
  assumes "store (snd m) = s" and "P s"
    and "\<And>x w1. store w1 = s \<Longrightarrow> P (store (snd (f x w1)))"
  shows "P (store (snd (then_do m f)))"
proof -
  obtain r w1 where m: "m = (r, w1)" by (cases m) blast
  show ?thesis
    using assms unfolding m by (cases r) (simp_all add: then_do_def)
qed

lemma then_do_store_eq:
  assumes "store (snd m) = s" and "\<And>x w1. store w1 = s \<Longrightarrow> store (snd (f x w1)) = s"
  shows "store (snd (then_do m f)) = s"
  using then_do_store [where P = "\<lambda>t. t = s", OF assms(1) refl assms(2)] by simp

lemma sync_step_store: "store (bw (sync_step net ty tot b t)) = store (bw b)"
  by (cases t) (simp_all add: sync_step_def dl_start_def emit_def Let_def)

lemma foldl_sync_store: "store (bw (foldl (sync_step net ty tot) b ts)) = store (bw b)"
  by (induction ts arbitrary: b) (simp_all add: sync_step_store)

lemma async_step_store: "store (bw (async_step net ty tot b d)) = store (bw b)"
proof -
  obtain url dir name p evs where d: "d = (url, dir, name, p, evs)"
    by (cases d) auto
  let ?r = "dl_finish (respawn_retry net url dir name) True dir name evs (bw b)"
  have "store (snd ?r) = store (bw b)"
    using quiet_dl_finish [OF quiet_respawn] by (rule quiet_store)
  then show ?thesis
    by (cases "fst ?r") (simp_all add: async_step_def d split_def Let_def)
qed

lemma foldl_async_store: "store (bw (foldl (async_step net ty tot) b ds)) = store (bw b)"
  by (induction ds arbitrary: b) (simp_all add: async_step_store)

lemma run_batch_store: "store (bw (run_batch net prio ty tot ts w)) = store w"
  by (simp add: run_batch_def Let_def foldl_async_store foldl_sync_store emit_def)

lemma getClasses_store: "store (snd (getClasses net prio osname opts ver w)) = store w"
  unfolding getClasses_def
  by (rule then_do_store_eq) (simp_all add: downloadToDirectory_def Let_def run_batch_store emit_def)

lemma launch_classes_store: "store (snd (launch_classes net prio osname opts ver w)) = store w"
proof (cases "ov_classes (opt_overrides opts)")
  case None
  have "store (snd (then_do (getClasses net prio osname opts ver w)
                      (\<lambda>libs w1. (Resolved (cleanUp libs), w1)))) = store w"
    by (rule then_do_store_eq) (simp_all add: getClasses_store)
  then show ?thesis using None by (simp add: launch_classes_def)
next
  case (Some cs)
  then show ?thesis by (simp add: launch_classes_def)
qed

lemma getAssets_store: "store (snd (getAssets net prio parse opts ver w)) = store w"
  unfolding getAssets_def
proof (rule then_do_store_eq)
  show "store (snd (read_index net parse opts ver w)) = store w"
    using quiet_read_index by (rule quiet_store)
next
  fix objects and w1 :: world
  assume w1: "store w1 = store w"
  show "store (snd (then_do
            (batch_outcome (assets_batch net prio opts objects w1),
             bw (assets_batch net prio opts objects w1))
            (\<lambda>libs w2. (Resolved (),
               emit (Debug ''[VoidBeam]: Downloaded assets'') (w2\<lparr>counter := 0\<rparr>))))) = store w"
    by (rule then_do_store_eq) (simp_all add: assets_batch_def run_batch_store w1 emit_def)
qed

lemma getJar_store: "store (snd (getJar net opts directory ver w)) = store w"
proof -
  have "store (snd (then_do
                 (downloadAsync net downloadUrl dir name True
                    (emit (Debug ''[VoidBeam]: Downloading Minecraft jar'') w))
                 (\<lambda>u w1. (Resolved (), emit (Debug ''[VoidBeam]: Downloaded Minecraft jar'') w1))))
        = store w" for downloadUrl dir name
  proof (rule then_do_store_eq)
    show "store (snd (downloadAsync net downloadUrl dir name True
                    (emit (Debug ''[VoidBeam]: Downloading Minecraft jar'') w))) = store w"
      using quiet_store [OF quiet_downloadAsync] by (simp add: emit_def)
  qed (simp add: emit_def)
  then show ?thesis
    by (simp add: getJar_def Let_def split: option.splits)
qed

lemma log4j_config_store: "store (snd (log4j_config net opts vid jvm w)) = store w"
proof -
  have "store (snd (then_do (downloadAsync net url dir name True w)
                 (\<lambda>u w1. (Resolved (jvm @ [x]), w1)))) = store w" for url dir name x
    by (rule then_do_store_eq) (simp_all add: quiet_store [OF quiet_downloadAsync])
  then show ?thesis
    by (simp add: log4j_config_def split: sum.splits bool.splits)
qed

lemma log4j_patch_store: "store (snd (log4j_patch net opts vid jvm w)) = store w"
  unfolding log4j_patch_def
  by (rule then_do_store_eq) (simp_all add: log4j_config_store)

lemma catch_close_store: "store (snd (catch_close m)) = store (snd m)"
proof -
  obtain r w1 where m: "m = (r, w1)" by (cases m) blast
  show ?thesis unfolding m by (cases r) (simp_all add: catch_close_def emit_def)
qed

lemma getLaunchOptions_store:
  assumes "store w (authorization opts) = Some idn"
  shows "store (snd (getLaunchOptions osname opts ver w)) = store w
     \<or> id_meta idn = None
       \<and> store (snd (getLaunchOptions osname opts ver w))
           = (store w)(authorization opts \<mapsto> idn\<lparr>id_meta := Some default_meta\<rparr>)"
proof (cases "id_meta idn")
  case None
  then show ?thesis
    using assms by (simp add: getLaunchOptions_def Let_def emit_def split: option.splits)
next
  case (Some m)
  have "idn\<lparr>id_meta := Some m\<rparr> = idn"
    using Some by simp
  then have "(store w)(authorization opts \<mapsto> idn\<lparr>id_meta := Some m\<rparr>) = store w"
    using assms by (simp add: fun_upd_idem)
  then show ?thesis
    using assms Some by (simp add: getLaunchOptions_def Let_def emit_def split: option.splits)
qed

lemma launch_version_store:
  assumes "store w (authorization opts) = Some idn"
  shows "store (snd (launch_version e opts directory ver w)) = store w
     \<or> id_meta idn = None
       \<and> store (snd (launch_version e opts directory ver w))
           = (store w)(authorization opts \<mapsto> idn\<lparr>id_meta := Some default_meta\<rparr>)"
proof -
  let ?P = "\<lambda>t. t = store w
     \<or> id_meta idn = None \<and> t = (store w)(authorization opts \<mapsto> idn\<lparr>id_meta := Some default_meta\<rparr>)"
  let ?os = "getOS (env_platform e) opts"
  have args: "?P (store (snd (launch_args ?os opts ver pre w1)))" if "store w1 = store w" for pre w1
    unfolding launch_args_def
  proof (rule then_do_store [where s = "store (snd (getLaunchOptions ?os opts ver w1))"])
    show "?P (store (snd (getLaunchOptions ?os opts ver w1)))"
      using getLaunchOptions_store [of w1 opts idn ?os ver] assms that by simp
    fix x and w2 :: world
    assume "store w2 = store (snd (getLaunchOptions ?os opts ver w1))"
    then show "?P (store (snd (launch_spawn opts pre x w2)))"
      using getLaunchOptions_store [of w1 opts idn ?os ver] assms that
      by (simp add: launch_spawn_def Let_def emit_def)
  qed (rule refl)
  have P0: "?P (store w)"
    by simp
  have assets: "?P (store (snd (launch_assets e ?os opts directory ver jvm classes w1)))"
    if h: "store w1 = store w" for jvm classes w1
    unfolding launch_assets_def Let_def
  proof (rule then_do_store [where s = "store w"])
    show "store (snd (getAssets (env_net e) (env_prio_assets e) (env_parse e) opts ver
            (emit (Debug ''[VoidBeam]: Attempting to download assets'')
               (emit (Debug (''[VoidBeam]: Using '' @ separator ?os @ '' to separate class paths'')) w1))))
          = store w"
      using h by (simp add: getAssets_store emit_def)
    show "?P (store w)"
      by (rule P0)
    fix u :: unit and w2 :: world and pre
    assume "store w2 = store w"
    then show "?P (store (snd (launch_args ?os opts ver pre w2)))"
      by (rule args)
  qed
  have cp: "?P (store (snd (launch_cp e ?os opts directory ver jvm w1)))"
    if h: "store w1 = store w" for jvm w1
    unfolding launch_cp_def
  proof (rule then_do_store [where s = "store w"])
    show "store (snd (launch_classes (env_net e) (env_prio_classes e) ?os opts ver w1)) = store w"
      using h by (simp add: launch_classes_store)
    show "?P (store w)"
      by (rule P0)
    fix classes and w2 :: world
    assume "store w2 = store w"
    then show "?P (store (snd (launch_assets e ?os opts directory ver jvm classes w2)))"
      by (rule assets)
  qed
  have jvm: "?P (store (snd (launch_jvm e ?os opts directory ver nativePath w1)))"
    if h: "store w1 = store w" for nativePath w1
    unfolding launch_jvm_def Let_def
  proof (rule then_do_store [where s = "store w"])
    show "store (snd (log4j_patch (env_net e) opts (v_id ver)
             (jvm_flags ?os (v_id ver) nativePath (fst (memory_flags (env_num e) (opt_memory opts))) opts)
             (w1\<lparr>events := events w1 @ snd (snd (memory_flags (env_num e) (opt_memory opts)))\<rparr>)))
          = store w"
      using h by (simp add: log4j_patch_store)
    show "?P (store w)"
      by (rule P0)
    fix jvm and w2 :: world
    assume "store w2 = store w"
    then show "?P (store (snd (launch_cp e ?os opts directory ver jvm w2)))"
      by (rule cp)
  qed
  have jar: "?P (store (snd (launch_jar e ?os opts directory ver nativePath w1)))"
    if h: "store w1 = store w" for nativePath w1
    unfolding launch_jar_def
  proof (rule then_do_store [where s = "store w"])
    show "store (snd (if fs w1 (jar_path opts directory) = None then
          getJar (env_net e) opts directory ver
            (emit (Debug ''[VoidBeam]: Attempting to download Minecraft version jar'') w1)
        else (Resolved (), w1))) = store w"
      using h by (simp add: getJar_store emit_def)
    show "?P (store w)"
      by (rule P0)
    fix u :: unit and w2 :: world
    assume "store w2 = store w"
    then show "?P (store (snd (launch_jvm e ?os opts directory ver nativePath w2)))"
      by (rule jvm)
  qed
  show ?thesis
    unfolding launch_version_def
  proof (rule then_do_store [where s = "store w"])
    show "store (snd (env_natives e, w)) = store w"
      by simp
    show "?P (store w)"
      by (rule P0)
    fix nativePath and w2 :: world
    assume "store w2 = store w"
    then show "?P (store (snd (launch_jar e ?os opts directory ver nativePath w2)))"
      by (rule jar)
  qed
qed

text \<open>
  C8, as the code has it. \<open>launch\<close> and \<open>getLaunchOptions\<close> leave every identity object
  as it was, with one exception: \<open>getLaunchOptions\<close> assigns
  \<open>authorization.meta = authorization.meta || { type: 'offline' }\<close> on the caller's object, so
  an identity that came without \<open>meta\<close> has \<open>meta = { type: 'offline' }\<close> afterwards. An
  identity with a \<open>meta\<close> is unchanged in every field.
\<close>

theorem launch_identity:
  assumes "store w (authorization options) = Some idn"
  shows "(store (snd (getLaunchOptions osname options ver w)) = store w
          \<or> id_meta idn = None
            \<and> store (snd (getLaunchOptions osname options ver w))
                = (store w)(authorization options \<mapsto> idn\<lparr>id_meta := Some default_meta\<rparr>))
       \<and> (store (snd (launch e options w)) = store w
          \<or> id_meta idn = None
            \<and> store (snd (launch e options w))
                = (store w)(authorization options \<mapsto> idn\<lparr>id_meta := Some default_meta\<rparr>))"
proof (intro conjI)
  show "store (snd (getLaunchOptions osname options ver w)) = store w
          \<or> id_meta idn = None
            \<and> store (snd (getLaunchOptions osname options ver w))
                = (store w)(authorization options \<mapsto> idn\<lparr>id_meta := Some default_meta\<rparr>)"
    using assms by (rule getLaunchOptions_store)
next
  let ?P = "\<lambda>t. t = store w
     \<or> id_meta idn = None \<and> t = (store w)(authorization options \<mapsto> idn\<lparr>id_meta := Some default_meta\<rparr>)"
  let ?opts = "options\<lparr>root := path_resolve (root options)\<rparr>"
  let ?w1 = "printVersion e w"
  have w1: "store ?w1 = store w"
    by (simp add: printVersion_def emit_def split: option.splits)
  have "?P (store (snd (case env_java e of
              Inl msg \<Rightarrow>
                (Resolved None,
                 emit (Close_ev 1)
                   (emit (Debug (''[VoidBeam]: Couldn'' @ CHR 0x27 # ''t start Minecraft due to: '' @ msg)) ?w1))
            | Inr line \<Rightarrow>
                then_do (env_version e, createRootDirectory e (emit (Debug line) ?w1))
                  (\<lambda>versionFile w3.
                     case versionFile of
                       Inl msg \<Rightarrow>
                         (Resolved None,
                          emit (Close_ev 1) (emit (Debug (''[VoidBeam]: '' @ msg)) w3))
                     | Inr ver \<Rightarrow> launch_version e ?opts (version_directory ?opts) ver w3))))"
  proof (cases "env_java e")
    case (Inl msg)
    then show ?thesis by (simp add: emit_def w1)
  next
    case (Inr line)
    have "?P (store (snd (then_do (env_version e, createRootDirectory e (emit (Debug line) ?w1))
                  (\<lambda>versionFile w3.
                     case versionFile of
                       Inl msg \<Rightarrow>
                         (Resolved None,
                          emit (Close_ev 1) (emit (Debug (''[VoidBeam]: '' @ msg)) w3))
                     | Inr ver \<Rightarrow> launch_version e ?opts (version_directory ?opts) ver w3))))"
    proof (rule then_do_store [where s = "store w"])
      show "store (snd (env_version e, createRootDirectory e (emit (Debug line) ?w1))) = store w"
        by (simp add: createRootDirectory_def emit_def w1)
      show "?P (store w)" by simp
      fix x and w3 :: world
      assume w3: "store w3 = store w"
      show "?P (store (snd (case x of
                       Inl msg \<Rightarrow>
                         (Resolved None,
                          emit (Close_ev 1) (emit (Debug (''[VoidBeam]: '' @ msg)) w3))
                     | Inr ver \<Rightarrow> launch_version e ?opts (version_directory ?opts) ver w3)))"
      proof (cases x)
        case (Inl msg)
        then show ?thesis by (simp add: emit_def w3)
      next
        case (Inr ver)
        have "store w3 (authorization ?opts) = Some idn"
          using assms w3 by simp
        then show ?thesis
          using launch_version_store [of w3 ?opts idn e "version_directory ?opts" ver] Inr w3
          by simp
      qed
    qed
    then show ?thesis using Inr by simp
  qed
  then show "?P (store (snd (launch e options w)))"
    by (simp add: launch_def Let_def catch_close_store)
qed

theorem launch_identity_witness:
  "store (world_with steve) (authorization options_1_20) = Some steve
   \<and> store (snd (getLaunchOptions ''linux'' options_1_20 version_1_20 (world_with steve)))
       = store (world_with steve)
   \<and> store (snd (launch env_ok options_1_20 (world_with steve))) = store (world_with steve)"
proof -
  have s: "store (world_with steve) (authorization options_1_20) = Some steve"
    by (simp add: world_with_def options_1_20_def)
  have m: "id_meta steve \<noteq> None"
    by (simp add: steve_def)
  show ?thesis
    using launch_identity [OF s, of "''linux''" version_1_20 env_ok] s m by blast
qed

text \<open>
  C8 as stated fails for an identity without \<open>meta\<close>: after \<open>getLaunchOptions\<close>, and after
  the whole launch, the caller's object has \<open>meta = { type: 'offline' }\<close>.
\<close>

theorem launch_identity_counterexample:
  "store (world_with steve_no_meta) 0 = Some steve_no_meta
   \<and> id_meta steve_no_meta = None
   \<and> store (snd (getLaunchOptions ''linux'' options_1_20 version_1_20 (world_with steve_no_meta))) 0
       = Some (steve_no_meta\<lparr>id_meta := Some default_meta\<rparr>)
   \<and> store (snd (launch env_ok options_1_20 (world_with steve_no_meta))) 0
       = Some (steve_no_meta\<lparr>id_meta := Some default_meta\<rparr>)
   \<and> steve_no_meta\<lparr>id_meta := Some default_meta\<rparr> \<noteq> steve_no_meta"
  by (simp add: launch_eval_defs)

subsection \<open>Failures during a launch\<close>

lemma catch_close_not_Rejected: "fst (catch_close m) \<noteq> Rejected err"
proof -
  obtain r w1 where m: "m = (r, w1)" by (cases m) blast
  show ?thesis unfolding m by (cases r) (simp_all add: catch_close_def)
qed

lemma launch_not_Rejected: "fst (launch e options w) \<noteq> Rejected err"
  by (simp add: launch_def Let_def catch_close_not_Rejected)

lemma launch_version_error:
  assumes "env_java e = Inr line" "env_version e = Resolved (Inl msg)"
  shows "fst (launch e options w) = Resolved None"
    and "events (snd (launch e options w))
           = events (createRootDirectory e (emit (Debug line) (printVersion e w)))
             @ [Debug (''[VoidBeam]: '' @ msg), Close_ev 1]"
  using assms by (simp_all add: launch_def Let_def then_do_def catch_close_def emit_def)

lemma launch_no_jar:
  "(case launch env_no_jar options_1_20 (world_with steve) of
      (r, w) \<Rightarrow> (r, events w, unhandled w, fs w ''/mc/versions/1.20.1/1.20.1.jar''))
   = (Resolved (Some \<lparr>p_command = ''java'',
        p_args = map AStr
          [''-XX:-UseAdaptiveSizePolicy'', ''-XX:-OmitStackTraceInFastThrow'',
           ''-Dfml.ignorePatchDiscrepancies=true'', ''-Dfml.ignoreInvalidMinecraftCertificates=true'',
           ''-Djava.library.path=/mc'', ''-Xmx4G'', ''-Xms2G'', ''-Xss1M'', ''-cp'',
           ''/mc/libraries/a/a.jar:/mc/versions/1.20.1/1.20.1.jar'',
           ''net.minecraft.client.main.Main'', ''--username'', ''Steve''],
        p_cwd = ''/mc'', p_detached = True\<rparr>),
      [Debug ''[VoidBeam]: VoidBeam Core version 1.0.0'',
       Debug ''[VoidBeam]: Using Java version 17.0.1 64-bit'',
       Debug ''[VoidBeam]: Attempting to download Minecraft version jar'',
       Debug ''[VoidBeam]: Downloading Minecraft jar'',
       Debug ''[VoidBeam]: Downloading 1.20.1.jar from https://meta/client.jar'',
       Debug ''[VoidBeam]: Failed to download 1.20.1.jar, status: 404'',
       Debug ''[VoidBeam]: Downloading 1.20.1.jar from https://meta/client.jar'',
       Debug ''[VoidBeam]: Failed to download 1.20.1.jar, status: 404'',
       Debug ''[VoidBeam]: Downloaded 1.20.1.jar'',
       Debug ''[VoidBeam]: Downloaded 1.20.1.jar'',
       Debug ''[VoidBeam]: Downloaded Minecraft jar'',
       Progress ''classes'' 0 1,
       Debug ''[VoidBeam]: Downloading a.jar from https://libs/a.jar'',
       Debug ''[VoidBeam]: Downloaded a.jar'',
       Progress ''classes'' 1 1,
       Debug ''[VoidBeam]: Collected class paths'',
       Debug ''[VoidBeam]: Using : to separate class paths'',
       Debug ''[VoidBeam]: Attempting to download assets'',
       Debug ''[VoidBeam]: Downloading asset index'',
       Debug ''[VoidBeam]: Downloading 5.json from https://meta/5.json'',
       Debug ''[VoidBeam]: Downloaded 5.json'',
       Progress ''assets'' 0 1,
       Debug ''[VoidBeam]: Downloading bdf48ef6 from https://resources.download.minecraft.net/bd/bdf48ef6'',
       Debug ''[VoidBeam]: Downloaded bdf48ef6'',
       Progress ''assets'' 1 1,
       Debug ''[VoidBeam]: Downloaded assets'',
       Debug ''[VoidBeam]: Set launch options'',
       Arguments (map AStr
          [''-XX:-UseAdaptiveSizePolicy'', ''-XX:-OmitStackTraceInFastThrow'',
           ''-Dfml.ignorePatchDiscrepancies=true'', ''-Dfml.ignoreInvalidMinecraftCertificates=true'',
           ''-Djava.library.path=/mc'', ''-Xmx4G'', ''-Xms2G'', ''-Xss1M'', ''-cp'',
           ''/mc/libraries/a/a.jar:/mc/versions/1.20.1/1.20.1.jar'',
           ''net.minecraft.client.main.Main'', ''--username'', ''Steve'']),
       Debug ''[VoidBeam]: Launching with arguments -XX:-UseAdaptiveSizePolicy -XX:-OmitStackTraceInFastThrow -Dfml.ignorePatchDiscrepancies=true -Dfml.ignoreInvalidMinecraftCertificates=true -Djava.library.path=/mc -Xmx4G -Xms2G -Xss1M -cp /mc/libraries/a/a.jar:/mc/versions/1.20.1/1.20.1.jar net.minecraft.client.main.Main --username Steve''],
      [''Download failed: 404''],
      Some ''Not Found'')"
  by (simp add: env_no_jar_def launch_eval_defs)

lemma launch_down:
  "(case launch env_down options_1_20 (world_with steve) of
      (r, w) \<Rightarrow> (r, events w, unhandled w))
   = (Pending,
      [Debug ''[VoidBeam]: VoidBeam Core version 1.0.0'',
       Debug ''[VoidBeam]: Using Java version 17.0.1 64-bit'',
       Debug ''[VoidBeam]: Attempting to download Minecraft version jar'',
       Debug ''[VoidBeam]: Downloading Minecraft jar'',
       Debug ''[VoidBeam]: Downloading 1.20.1.jar from https://meta/client.jar'',
       Debug ''[VoidBeam]: Failed to download 1.20.1.jar: ECONNREFUSED'',
       Debug ''[VoidBeam]: Downloading 1.20.1.jar from https://meta/client.jar'',
       Debug ''[VoidBeam]: Failed to download 1.20.1.jar: ECONNREFUSED''],
      [''ECONNREFUSED''])"
  by (simp add: env_down_def launch_eval_defs)

text \<open>
  C9, on the code. \<open>launch\<close> never rejects (\<open>launch_not_Rejected\<close>), and when
  \<open>getVersion\<close> answers with an \<open>Error\<close> it emits the debug event and \<open>close\<close> with code 1
  and resolves to \<open>null\<close> (\<open>launch_version_error\<close>). A failed download of the version jar
  does not get that far: \<open>downloadAsync\<close> does not reject when the request and its retry
  fail, so the \<open>catch\<close> of \<open>launch\<close> never sees the failure. When the server answers 404 for
  the jar, \<open>launch\<close> goes on, spawns the process with the body of the 404 answer as the jar
  on the class path, and emits no \<open>close\<close> event; when there is no connection, the promise of
  \<open>launch\<close> never settles and no \<open>close\<close> event is emitted.
\<close>

theorem launch_failed_download_no_close:
  "fst (launch env_no_jar options_1_20 (world_with steve))
     = Resolved (Some \<lparr>p_command = ''java'',
        p_args = map AStr
          [''-XX:-UseAdaptiveSizePolicy'', ''-XX:-OmitStackTraceInFastThrow'',
           ''-Dfml.ignorePatchDiscrepancies=true'', ''-Dfml.ignoreInvalidMinecraftCertificates=true'',
           ''-Djava.library.path=/mc'', ''-Xmx4G'', ''-Xms2G'', ''-Xss1M'', ''-cp'',
           ''/mc/libraries/a/a.jar:/mc/versions/1.20.1/1.20.1.jar'',
           ''net.minecraft.client.main.Main'', ''--username'', ''Steve''],
        p_cwd = ''/mc'', p_detached = True\<rparr>)
   \<and> Close_ev 1 \<notin> set (events (snd (launch env_no_jar options_1_20 (world_with steve))))
   \<and> unhandled (snd (launch env_no_jar options_1_20 (world_with steve))) = [''Download failed: 404'']
   \<and> fs (snd (launch env_no_jar options_1_20 (world_with steve))) ''/mc/versions/1.20.1/1.20.1.jar''
        = Some ''Not Found''
   \<and> fst (launch env_down options_1_20 (world_with steve)) = Pending
   \<and> Close_ev 1 \<notin> set (events (snd (launch env_down options_1_20 (world_with steve))))
   \<and> unhandled (snd (launch env_down options_1_20 (world_with steve))) = [''ECONNREFUSED'']"
proof -
  have a: "fst (launch env_no_jar options_1_20 (world_with steve))
     = Resolved (Some \<lparr>p_command = ''java'',
        p_args = map AStr
          [''-XX:-UseAdaptiveSizePolicy'', ''-XX:-OmitStackTraceInFastThrow'',
           ''-Dfml.ignorePatchDiscrepancies=true'', ''-Dfml.ignoreInvalidMinecraftCertificates=true'',
           ''-Djava.library.path=/mc'', ''-Xmx4G'', ''-Xms2G'', ''-Xss1M'', ''-cp'',
           ''/mc/libraries/a/a.jar:/mc/versions/1.20.1/1.20.1.jar'',
           ''net.minecraft.client.main.Main'', ''--username'', ''Steve''],
        p_cwd = ''/mc'', p_detached = True\<rparr>)"
    and b: "Close_ev 1 \<notin> set (events (snd (launch env_no_jar options_1_20 (world_with steve))))"
    and c: "unhandled (snd (launch env_no_jar options_1_20 (world_with steve))) = [''Download failed: 404'']"
    and d: "fs (snd (launch env_no_jar options_1_20 (world_with steve))) ''/mc/versions/1.20.1/1.20.1.jar''
        = Some ''Not Found''"
    using launch_no_jar by (simp_all add: split_def)
  have e: "fst (launch env_down options_1_20 (world_with steve)) = Pending"
    and f: "Close_ev 1 \<notin> set (events (snd (launch env_down options_1_20 (world_with steve))))"
    and g: "unhandled (snd (launch env_down options_1_20 (world_with steve))) = [''ECONNREFUSED'']"
    using launch_down by (simp_all add: split_def)
  show ?thesis
    using a b c d e f g by blast
qed

end
